theory Spec2Isabelle
  imports Complex_Main "HOL-Library.Sublist"
begin

text \<open>
  A shallow embedding of the rules of the quiz application: the rank trigger of the
  database migration, the experience formula, the matchmaking-queue hook, the two
  timed quiz components and the chat responder with its provider fallback. The
  definitions come first, each named after the source function it follows; the
  properties follow.
\<close>

section \<open>Experience and rank\<close>

subsection \<open>The rank trigger (migration \<open>update_user_rank\<close>)\<close>

text \<open>
  The column types are PostgreSQL \<open>INTEGER\<close>: a 32-bit signed value or \<open>NULL\<close>.
  Integer division truncates toward zero, arithmetic on \<open>NULL\<close> gives \<open>NULL\<close>, a result
  outside the 32-bit range raises an error instead of wrapping, and \<open>GREATEST\<close> ignores
  \<open>NULL\<close> arguments (\<open>pg_greatest\<close>).
\<close>

datatype pg_error = NumericValueOutOfRange | DivisionByZero

type_synonym int4 = "int option"

definition int4_range :: "int \<Rightarrow> bool" where
  "int4_range k = (- (2 ^ 31) \<le> k \<and> k \<le> 2 ^ 31 - 1)"

definition tdiv :: "int \<Rightarrow> int \<Rightarrow> int" where
  \<comment> \<open>quotient truncated toward zero\<close>
  "tdiv a b = sgn a * sgn b * (\<bar>a\<bar> div \<bar>b\<bar>)"

definition pg_div :: "int4 \<Rightarrow> int4 \<Rightarrow> pg_error + int4" where
  "pg_div a b =
     (case (a, b) of
        (Some x, Some y) \<Rightarrow>
          if y = 0 then Inl DivisionByZero
          else if int4_range (tdiv x y) then Inr (Some (tdiv x y))
          else Inl NumericValueOutOfRange
      | _ \<Rightarrow> Inr None)"

definition pg_add :: "int4 \<Rightarrow> int4 \<Rightarrow> pg_error + int4" where
  "pg_add a b =
     (case (a, b) of
        (Some x, Some y) \<Rightarrow>
          if int4_range (x + y) then Inr (Some (x + y)) else Inl NumericValueOutOfRange
      | _ \<Rightarrow> Inr None)"

fun pg_greatest :: "int4 list \<Rightarrow> int4" where
  "pg_greatest [] = None"
| "pg_greatest (None # vs) = pg_greatest vs"
| "pg_greatest (Some v # vs) = (case pg_greatest vs of None \<Rightarrow> Some v | Some w \<Rightarrow> Some (max v w))"

record profile =
  p_exp :: int4
  p_rank :: int4

definition update_user_rank :: "profile \<Rightarrow> pg_error + profile" where
  \<comment> \<open>\<open>NEW.rank = GREATEST(1, NEW.exp / 100 + 1); RETURN NEW;\<close>\<close>
  "update_user_rank NEW =
     (case pg_div (p_exp NEW) (Some 100) of
        Inl e \<Rightarrow> Inl e
      | Inr q \<Rightarrow>
          (case pg_add q (Some 1) of
             Inl e \<Rightarrow> Inl e
           | Inr r \<Rightarrow> Inr (NEW\<lparr>p_rank := pg_greatest [Some 1, r]\<rparr>)))"

subsection \<open>The experience formula (\<open>calculateExpGained\<close>)\<close>

text \<open>
  A JavaScript \<open>number\<close> is a binary64 float: every arithmetic operation returns the
  exact real result rounded to the nearest representable value. The rounding operator
  is the parameter \<open>fl\<close> of the model, so that the properties below hold for every
  rounding with the stated properties (round-to-nearest has them, and so has exact
  arithmetic, \<open>fl = id\<close>). Scores and totals are counts, which a \<open>number\<close> holds exactly.
  \<open>Math.round\<close> is exact: the nearest integer, a tie going toward \<open>+\<infinity>\<close>. With a total
  of zero the quotient is \<open>NaN\<close> or infinite and so is the result: \<open>None\<close>.
\<close>

datatype GameMode = comprehension | spellbee

definition Math_round :: "real \<Rightarrow> int" where
  "Math_round x = \<lfloor>x + 1 / 2\<rfloor>"

definition calculateExpGained :: "(real \<Rightarrow> real) \<Rightarrow> int \<Rightarrow> int \<Rightarrow> GameMode \<Rightarrow> int option" where
  "calculateExpGained fl score total' gameMode =
     (let baseExp = (if gameMode = comprehension then 10 else 15);
          maxBonus = (if gameMode = comprehension then 15 else 15)
      in if total' = 0 then None
         else
           let percentage = fl (of_int score / of_int total')
           in Some (Math_round (fl (baseExp + fl (maxBonus * percentage)))))"

section \<open>Matchmaking queue (\<open>useMatchmaking\<close>)\<close>

text \<open>
  The hook talks to the hosted database through requests. The table
  \<open>matchmaking_queue\<close>, its constraints and its row-level-security policies are those of
  the migration; the database executes each request it is sent. Row identifiers come
  from \<open>gen_random_uuid()\<close> and timestamps from \<open>NOW()\<close>: both are inputs of the model.
\<close>

type_synonym uuid = string

record queue_row =
  q_id :: uuid
  player_id :: uuid
  game_mode :: GameMode
  skill_level :: int4
  created_at :: nat

record database =
  profiles :: "uuid list"  \<comment> \<open>the \<open>id\<close> column of \<open>public.profiles\<close>\<close>
  matchmaking_queue :: "queue_row list"

datatype db_error = RowLevelSecurityViolation | ForeignKeyViolation | UniqueViolation

definition can_delete_own_queue_entries :: "uuid option \<Rightarrow> queue_row \<Rightarrow> bool" where
  \<comment> \<open>policy \<open>FOR DELETE USING (auth.uid() = player_id)\<close>\<close>
  "can_delete_own_queue_entries auth_uid r = (auth_uid = Some (player_id r))"

definition can_insert_own_queue_entries :: "uuid option \<Rightarrow> queue_row \<Rightarrow> bool" where
  \<comment> \<open>policy \<open>FOR INSERT WITH CHECK (auth.uid() = player_id)\<close>\<close>
  "can_insert_own_queue_entries auth_uid r = (auth_uid = Some (player_id r))"

definition delete_eq_player_id :: "uuid option \<Rightarrow> uuid \<Rightarrow> database \<Rightarrow> database" where
  \<comment> \<open>\<open>.from('matchmaking_queue').delete().eq('player_id', v)\<close>: the rows that match the
      filter and that the policy lets the caller delete are removed\<close>
  "delete_eq_player_id auth_uid v db =
     db\<lparr>matchmaking_queue :=
          filter (\<lambda>r. \<not> (player_id r = v \<and> can_delete_own_queue_entries auth_uid r))
            (matchmaking_queue db)\<rparr>"

definition insert_queue_row :: "uuid option \<Rightarrow> queue_row \<Rightarrow> database \<Rightarrow> db_error + database" where
  \<comment> \<open>\<open>.from('matchmaking_queue').insert(row)\<close>: policy check, foreign key into
      \<open>profiles\<close>, primary key on \<open>id\<close>; the \<open>CHECK\<close> on \<open>game_mode\<close> holds by type\<close>
  "insert_queue_row auth_uid r db =
     (if \<not> can_insert_own_queue_entries auth_uid r then Inl RowLevelSecurityViolation
      else if player_id r \<notin> set (profiles db) then Inl ForeignKeyViolation
      else if q_id r \<in> set (map q_id (matchmaking_queue db)) then Inl UniqueViolation
      else Inr (db\<lparr>matchmaking_queue := matchmaking_queue db @ [r]\<rparr>))"

datatype request =
    DeleteQueueWherePlayerId uuid
  | InsertQueue uuid GameMode int
  | SubscribeActiveGames uuid

record MatchmakingState =
  isQueued :: bool
  isMatched :: bool
  gameId :: "string option"
  opponent :: "(string \<times> string) option"  \<comment> \<open>\<open>id\<close> and \<open>username\<close>\<close>
  estimatedWaitTime :: nat

record hook_run =
  returned :: "db_error + MatchmakingState"  \<comment> \<open>\<open>Inl\<close>: the promise rejects with the error\<close>
  db_after :: database
  issued :: "request list"

definition joinQueue ::
  "uuid option \<Rightarrow> GameMode \<Rightarrow> uuid \<Rightarrow> nat \<Rightarrow> database \<Rightarrow> MatchmakingState \<Rightarrow> hook_run" where
  "joinQueue user gameMode new_id now db state =
     (case user of
        None \<Rightarrow> \<lparr>returned = Inr state, db_after = db, issued = []\<rparr>
      | Some uid \<Rightarrow>
          let db1 = delete_eq_player_id user uid db;
              row = \<lparr>q_id = new_id, player_id = uid, game_mode = gameMode,
                     skill_level = Some 1, created_at = now\<rparr>
          in case insert_queue_row user row db1 of
               Inl error \<Rightarrow>
                 \<lparr>returned = Inl error, db_after = db1,
                  issued = [DeleteQueueWherePlayerId uid, InsertQueue uid gameMode 1]\<rparr>
             | Inr db2 \<Rightarrow>
                 \<lparr>returned = Inr (state\<lparr>isQueued := True, isMatched := False,
                                    gameId := None, opponent := None\<rparr>),
                  db_after = db2,
                  issued = [DeleteQueueWherePlayerId uid, InsertQueue uid gameMode 1,
                            SubscribeActiveGames uid]\<rparr>)"

definition leaveQueue :: "uuid option \<Rightarrow> database \<Rightarrow> MatchmakingState \<Rightarrow> hook_run" where
  "leaveQueue user db state =
     (case user of
        None \<Rightarrow> \<lparr>returned = Inr state, db_after = db, issued = []\<rparr>
      | Some uid \<Rightarrow>
          \<lparr>returned = Inr (state\<lparr>isQueued := False, isMatched := False,
                             gameId := None, opponent := None\<rparr>),
           db_after = delete_eq_player_id user uid db,
           issued = [DeleteQueueWherePlayerId uid]\<rparr>)"

definition entries_of :: "uuid \<Rightarrow> database \<Rightarrow> queue_row list" where
  "entries_of uid db = filter (\<lambda>r. player_id r = uid) (matchmaking_queue db)"

definition entries_of_others :: "uuid \<Rightarrow> database \<Rightarrow> queue_row list" where
  "entries_of_others uid db = filter (\<lambda>r. player_id r \<noteq> uid) (matchmaking_queue db)"

section \<open>JavaScript strings, numbers and arrays\<close>

text \<open>
  Strings are lists of code units below 256 (Latin-1). \<open>toLowerCase\<close> adds 32 to the
  capital letters: \<open>A\<close> to \<open>Z\<close> (65 to 90) and the accented capitals 192 to 222, the
  multiplication sign 215 apart. The white space of \<open>trim\<close> is tab, line feed,
  vertical tab, form feed, carriage return, space and no-break space.
\<close>

datatype js_error = TypeError | AbortError | NetworkError | HttpError nat | SyntaxError

definition lower_char :: "char \<Rightarrow> char" where
  "lower_char c =
     (let n = (of_char c :: nat)
      in if (65 \<le> n \<and> n \<le> 90) \<or> (192 \<le> n \<and> n \<le> 222 \<and> n \<noteq> 215)
         then char_of (n + 32)
         else c)"

definition toLowerCase :: "string \<Rightarrow> string" where
  "toLowerCase s = map lower_char s"

definition isWhiteSpace :: "char \<Rightarrow> bool" where
  "isWhiteSpace c =
     (c \<in> set [CHR 0x09, CHR 0x0A, CHR 0x0B, CHR 0x0C, CHR 0x0D, CHR '' '', CHR 0xA0])"

definition trim :: "string \<Rightarrow> string" where
  "trim s = rev (dropWhile isWhiteSpace (rev (dropWhile isWhiteSpace s)))"

fun toString :: "nat \<Rightarrow> string" where
  "toString n =
     (if n < 10 then [''0123456789'' ! n]
      else toString (n div 10) @ [''0123456789'' ! (n mod 10)])"

text \<open>
  \<open>parseInt\<close> with no radix argument: leading white space, an optional sign, an optional
  \<open>0x\<close> prefix, then the longest run of digits; \<open>NaN\<close> when there is no digit.
\<close>

datatype number = NaN | Num int

definition digit_value :: "nat \<Rightarrow> char \<Rightarrow> nat option" where
  "digit_value radix c =
     (case map_of (zip ''0123456789abcdef'' [0 ..< 16]) (lower_char c) of
        Some d \<Rightarrow> if d < radix then Some d else None
      | None \<Rightarrow> None)"

definition parse_digits :: "nat \<Rightarrow> string \<Rightarrow> number" where
  "parse_digits radix s =
     (let ds = takeWhile (\<lambda>c. digit_value radix c \<noteq> None) s
      in if ds = [] then NaN
         else Num (foldl (\<lambda>acc c. acc * int radix + int (the (digit_value radix c))) 0 ds))"

definition parseInt :: "string \<Rightarrow> number" where
  "parseInt s =
     (let s1 = dropWhile isWhiteSpace s;
          (neg, s2) = (case s1 of
                         c # r \<Rightarrow>
                           if c = CHR ''-'' then (True, r)
                           else if c = CHR ''+'' then (False, r)
                           else (False, s1)
                       | [] \<Rightarrow> (False, s1));
          (radix, s3) = (if take 2 (toLowerCase s2) = ''0x'' then (16, drop 2 s2) else (10, s2))
      in case parse_digits radix s3 of
           NaN \<Rightarrow> NaN
         | Num n \<Rightarrow> Num (if neg then - n else n))"

text \<open>
  An array position holds a value, holds \<open>undefined\<close>, or is a hole (never assigned).
  Spreading an array turns its holes into \<open>undefined\<close>; assigning past the end leaves
  holes in between; \<open>reduce\<close> skips holes. \<open>slice(0, i)\<close> is \<open>take i\<close> and \<open>slice(i)\<close>
  is \<open>drop i\<close>.
\<close>

datatype 'a elem = Hole | Undefined | Elem 'a

definition is_value :: "'a elem \<Rightarrow> bool" where
  "is_value e = (case e of Elem x \<Rightarrow> True | _ \<Rightarrow> False)"

definition spread :: "'a elem list \<Rightarrow> 'a elem list" where
  "spread xs = map (\<lambda>e. case e of Hole \<Rightarrow> Undefined | _ \<Rightarrow> e) xs"

definition assign_index :: "'a elem list \<Rightarrow> nat \<Rightarrow> 'a \<Rightarrow> 'a elem list" where
  \<comment> \<open>\<open>xs[i] = v\<close>\<close>
  "assign_index xs i v =
     (if i < length xs then xs[i := Elem v]
      else xs @ replicate (i - length xs) Hole @ [Elem v])"

section \<open>Spelling Bee (\<open>SpellingBee.tsx\<close>)\<close>

text \<open>
  The component's state is a record; an event handler reads the state of the render it
  was created in and queues updates, so \<open>finishGame\<close>, called at the end of a handler,
  still reads the state from before the handler's own updates. A handler returns the
  new state and the call of \<open>onGameEnd\<close>, if it made one.

  The events of a game are the completion of a content load, its timers and the user's
  interactions. The load effect depends on a function that the content hook creates
  anew in every render, so the load runs again after every render and may complete at
  any moment. A state whose render raises unmounts the component: no event happens in
  it, and an input or a button exists only on the screen that shows it.
\<close>

record SpellingWord =
  sw_id :: string
  word :: string
  sw_definition :: string
  difficulty_level :: string
  pronunciation :: "string option"

datatype sb_phase = sb_playing | sb_finished

record sb_state =
  sb_words :: "SpellingWord list"
  sb_loading :: bool
  sb_currentWord :: nat
  sb_userInput :: string
  sb_answers :: "string elem list"
  sb_timeLeft :: nat
  sb_gamePhase :: sb_phase
  sb_score :: nat
  sb_showHint :: bool

definition sb_initial :: sb_state where
  "sb_initial =
     \<lparr>sb_words = [], sb_loading = True, sb_currentWord = 0, sb_userInput = [],
      sb_answers = [], sb_timeLeft = 180, sb_gamePhase = sb_playing, sb_score = 0,
      sb_showHint = False\<rparr>"

definition sb_loadWords :: "SpellingWord list \<Rightarrow> sb_state \<Rightarrow> sb_state" where
  \<comment> \<open>the words fetched, or the sample words when the fetch fails\<close>
  "sb_loadWords spellingWords s =
     s\<lparr>sb_words := spellingWords,
       sb_answers := replicate (length spellingWords) (Elem []),
       sb_loading := False\<rparr>"

definition sb_finalAnswers :: "sb_state \<Rightarrow> string elem list" where
  "sb_finalAnswers c =
     (if sb_userInput c \<noteq> []
      then spread (take (sb_currentWord c) (sb_answers c)) @ [Elem (trim (sb_userInput c))]
             @ spread (drop (sb_currentWord c + 1) (sb_answers c))
      else sb_answers c)"

fun sb_reduce :: "SpellingWord list \<Rightarrow> string elem list \<Rightarrow> nat \<Rightarrow> nat \<Rightarrow> js_error + nat" where
  \<comment> \<open>\<open>finalAnswers.reduce((score, answer, index) => ..., 0)\<close> from position \<open>index\<close> on\<close>
  "sb_reduce ws [] index score = Inr score"
| "sb_reduce ws (Hole # rest) index score = sb_reduce ws rest (index + 1) score"
| "sb_reduce ws (Undefined # rest) index score = Inl TypeError"
| "sb_reduce ws (Elem answer # rest) index score =
     (if index < length ws
      then sb_reduce ws rest (index + 1)
             (if toLowerCase answer = toLowerCase (word (ws ! index)) then score + 1 else score)
      else Inl TypeError)"

definition sb_finishGame :: "sb_state \<Rightarrow> sb_state \<Rightarrow> js_error + sb_state \<times> (nat \<times> nat) option" where
  \<comment> \<open>\<open>c\<close>: the state the function reads; \<open>s\<close>: the state its setters update\<close>
  "sb_finishGame c s =
     (case sb_reduce (sb_words c) (sb_finalAnswers c) 0 0 of
        Inl e \<Rightarrow> Inl e
      | Inr finalScore \<Rightarrow>
          Inr (s\<lparr>sb_score := finalScore, sb_gamePhase := sb_finished\<rparr>,
               Some (finalScore, length (sb_words c))))"

definition sb_handleNextWord :: "sb_state \<Rightarrow> js_error + sb_state \<times> (nat \<times> nat) option" where
  "sb_handleNextWord s =
     (let newAnswers = assign_index (spread (sb_answers s)) (sb_currentWord s) (trim (sb_userInput s));
          s1 = s\<lparr>sb_answers := newAnswers, sb_userInput := [], sb_showHint := False\<rparr>
      in if int (sb_currentWord s) < int (length (sb_words s)) - 1
         then Inr (s1\<lparr>sb_currentWord := sb_currentWord s + 1\<rparr>, None)
         else sb_finishGame s s1)"

definition sb_handleSkipWord :: "sb_state \<Rightarrow> js_error + sb_state \<times> (nat \<times> nat) option" where
  "sb_handleSkipWord s =
     (let newAnswers = assign_index (spread (sb_answers s)) (sb_currentWord s) [];
          s1 = s\<lparr>sb_answers := newAnswers, sb_userInput := [], sb_showHint := False\<rparr>
      in if int (sb_currentWord s) < int (length (sb_words s)) - 1
         then Inr (s1\<lparr>sb_currentWord := sb_currentWord s + 1\<rparr>, None)
         else sb_finishGame s s1)"

definition sb_timer :: "sb_state \<Rightarrow> js_error + sb_state \<times> (nat \<times> nat) option" where
  \<comment> \<open>the game-timer effect, with the timeout it sets\<close>
  "sb_timer s =
     (if sb_gamePhase s = sb_playing \<and> sb_timeLeft s > 0
      then Inr (s\<lparr>sb_timeLeft := sb_timeLeft s - 1\<rparr>, None)
      else if sb_gamePhase s = sb_playing \<and> sb_timeLeft s = 0 then sb_finishGame s s
      else Inr (s, None))"

datatype sb_event =
  WordsLoaded "SpellingWord list" | SbTimer | InputChange string | NextWord | SkipWord
  | ToggleHint | PronounceWord

definition sb_renders :: "sb_state \<Rightarrow> bool" where
  \<comment> \<open>the loading and the finished screens render in every state; the playing screen
      reads \<open>words[currentWord].difficulty_level\<close>\<close>
  "sb_renders s =
     (sb_loading s \<or> sb_gamePhase s = sb_finished \<or> sb_currentWord s < length (sb_words s))"

definition sb_playing_screen :: "sb_state \<Rightarrow> bool" where
  "sb_playing_screen s = (\<not> sb_loading s \<and> sb_gamePhase s = sb_playing)"

definition sb_enabled :: "sb_event \<Rightarrow> sb_state \<Rightarrow> bool" where
  \<comment> \<open>a load brings at most the 8 words asked for; the input and the buttons exist on
      the playing screen; the Next button and the Enter key need a non-blank input\<close>
  "sb_enabled e s =
     (sb_renders s
      \<and> (case e of
            WordsLoaded spellingWords \<Rightarrow> length spellingWords \<le> 8
          | SbTimer \<Rightarrow> True
          | NextWord \<Rightarrow> sb_playing_screen s \<and> trim (sb_userInput s) \<noteq> []
          | _ \<Rightarrow> sb_playing_screen s))"


definition sb_step :: "sb_event \<Rightarrow> sb_state \<Rightarrow> js_error + sb_state \<times> (nat \<times> nat) option" where
  "sb_step e s =
     (case e of
        WordsLoaded spellingWords \<Rightarrow> Inr (sb_loadWords spellingWords s, None)
      | SbTimer \<Rightarrow> sb_timer s
      | InputChange v \<Rightarrow> Inr (s\<lparr>sb_userInput := v\<rparr>, None)
      | NextWord \<Rightarrow> sb_handleNextWord s
      | SkipWord \<Rightarrow> sb_handleSkipWord s
      | ToggleHint \<Rightarrow> Inr (s\<lparr>sb_showHint := \<not> sb_showHint s\<rparr>, None)
      | PronounceWord \<Rightarrow> Inr (s, None))"

fun sb_run :: "sb_event list \<Rightarrow> sb_state \<Rightarrow> (sb_state \<times> (nat \<times> nat) list) option" where
  \<comment> \<open>a sequence of events, each enabled when it happens, with the \<open>onGameEnd\<close> calls made\<close>
  "sb_run [] s = Some (s, [])"
| "sb_run (e # es) s =
     (if sb_enabled e s
      then (case sb_step e s of
              Inl err \<Rightarrow> None
            | Inr (s', call) \<Rightarrow>
                (case sb_run es s' of
                   None \<Rightarrow> None
                 | Some (s'', calls) \<Rightarrow> Some (s'', (case call of None \<Rightarrow> [] | Some c \<Rightarrow> [c]) @ calls)))
      else None)"


definition sb_matches :: "SpellingWord list \<Rightarrow> string elem list \<Rightarrow> nat" where
  \<comment> \<open>the positions whose answer equals the word after lower-casing both\<close>
  "sb_matches ws as =
     length (filter (\<lambda>(a, w). case a of Elem x \<Rightarrow> toLowerCase x = toLowerCase (word w) | _ \<Rightarrow> False)
               (zip as ws))"

definition sb_exact_matches :: "SpellingWord list \<Rightarrow> string elem list \<Rightarrow> nat" where
  \<comment> \<open>the positions whose answer is the very string of the word\<close>
  "sb_exact_matches ws as =
     length (filter (\<lambda>(a, w). a = Elem (word w)) (zip as ws))"

definition sb_scored_answers :: "sb_state \<Rightarrow> string elem list" where
  \<comment> \<open>the recorded answers, the text in the input box, when there is some, trimmed and
      put in the place of the current word\<close>
  "sb_scored_answers s =
     (if sb_userInput s = [] then sb_answers s
      else (sb_answers s)[sb_currentWord s := Elem (trim (sb_userInput s))])"

definition sb_invariant :: "sb_state \<Rightarrow> bool" where
  \<comment> \<open>one recorded answer, a string, for each word; no typed text before the first load\<close>
  "sb_invariant s =
     (list_all is_value (sb_answers s) \<and> length (sb_answers s) = length (sb_words s)
      \<and> (sb_loading s \<longrightarrow> sb_userInput s = []))"


section \<open>Comprehension Battle (\<open>ComprehensionBattle.tsx\<close>)\<close>

text \<open>
  The component is modelled as the Spelling Bee is: a record of its state, the handlers
  reading the state of their render, the completed content load as an event, and no
  event in a state whose render raises. The question screen is rendered in the phase
  \<open>loading\<close> as well as in the phase \<open>questions\<close>.
\<close>

record Question =
  qn_id :: string
  question :: string
  options :: "string list"
  correctAnswer :: int
  explanation :: "string option"

record ReadingPassage =
  rp_id :: string
  title :: string
  content :: string

datatype answer = Null | Number number

datatype cb_phase = loading | reading | questions | finished

record cb_state =
  cb_passage :: "ReadingPassage option"
  cb_questions :: "Question list"
  cb_currentQuestion :: nat
  cb_selectedAnswer :: string
  cb_answers :: "answer elem list"
  cb_timeLeft :: nat
  cb_gamePhase :: cb_phase
  cb_readingTimeLeft :: nat
  cb_score :: nat

definition cb_initial :: cb_state where
  "cb_initial =
     \<lparr>cb_passage = None, cb_questions = [], cb_currentQuestion = 0, cb_selectedAnswer = [],
      cb_answers = [], cb_timeLeft = 300, cb_gamePhase = loading, cb_readingTimeLeft = 120,
      cb_score = 0\<rparr>"

definition cb_loadContent :: "ReadingPassage \<Rightarrow> Question list \<Rightarrow> cb_state \<Rightarrow> cb_state" where
  \<comment> \<open>the passage fetched with its questions, or the fallback content\<close>
  "cb_loadContent p formattedQuestions s =
     s\<lparr>cb_passage := Some p,
       cb_questions := formattedQuestions,
       cb_answers := replicate (length formattedQuestions) (Elem Null),
       cb_gamePhase := reading\<rparr>"

definition cb_finalAnswers :: "cb_state \<Rightarrow> answer elem list" where
  "cb_finalAnswers c =
     (if cb_selectedAnswer c \<noteq> []
      then spread (take (cb_currentQuestion c) (cb_answers c))
             @ [Elem (Number (parseInt (cb_selectedAnswer c)))]
             @ spread (drop (cb_currentQuestion c + 1) (cb_answers c))
      else cb_answers c)"

definition strict_equals :: "answer elem \<Rightarrow> int \<Rightarrow> bool" where
  \<comment> \<open>\<open>answer === correctAnswer\<close>, the right side a number of the content\<close>
  "strict_equals a k = (a = Elem (Number (Num k)))"

fun cb_reduce :: "Question list \<Rightarrow> answer elem list \<Rightarrow> nat \<Rightarrow> nat \<Rightarrow> js_error + nat" where
  \<comment> \<open>\<open>finalAnswers.reduce((score, answer, index) => ..., 0)\<close> from position \<open>index\<close> on\<close>
  "cb_reduce qs [] index score = Inr score"
| "cb_reduce qs (Hole # rest) index score = cb_reduce qs rest (index + 1) score"
| "cb_reduce qs (a # rest) index score =
     (if index < length qs
      then cb_reduce qs rest (index + 1)
             (if strict_equals a (correctAnswer (qs ! index)) then score + 1 else score)
      else Inl TypeError)"

definition cb_finishGame :: "cb_state \<Rightarrow> cb_state \<Rightarrow> js_error + cb_state \<times> (nat \<times> nat) option" where
  \<comment> \<open>\<open>c\<close>: the state the function reads; \<open>s\<close>: the state its setters update\<close>
  "cb_finishGame c s =
     (case cb_reduce (cb_questions c) (cb_finalAnswers c) 0 0 of
        Inl e \<Rightarrow> Inl e
      | Inr finalScore \<Rightarrow>
          Inr (s\<lparr>cb_score := finalScore, cb_gamePhase := finished\<rparr>,
               Some (finalScore, length (cb_questions c))))"

definition cb_handleNextQuestion :: "cb_state \<Rightarrow> js_error + cb_state \<times> (nat \<times> nat) option" where
  "cb_handleNextQuestion s =
     (let answerIndex = parseInt (cb_selectedAnswer s);
          newAnswers = assign_index (spread (cb_answers s)) (cb_currentQuestion s) (Number answerIndex);
          s1 = s\<lparr>cb_answers := newAnswers, cb_selectedAnswer := []\<rparr>
      in if int (cb_currentQuestion s) < int (length (cb_questions s)) - 1
         then Inr (s1\<lparr>cb_currentQuestion := cb_currentQuestion s + 1\<rparr>, None)
         else cb_finishGame s s1)"

definition cb_previous :: "cb_state \<Rightarrow> cb_state" where
  \<comment> \<open>the Previous button: \<open>setCurrentQuestion(Math.max(0, currentQuestion - 1))\<close>\<close>
  "cb_previous s =
     s\<lparr>cb_currentQuestion := nat (max 0 (int (cb_currentQuestion s) - 1))\<rparr>"

definition cb_startQuestions :: "cb_state \<Rightarrow> cb_state" where
  "cb_startQuestions s = s\<lparr>cb_gamePhase := questions\<rparr>"

definition cb_readingTimer :: "cb_state \<Rightarrow> cb_state" where
  \<comment> \<open>the reading-phase timer effect, with the timeout it sets\<close>
  "cb_readingTimer s =
     (if cb_gamePhase s = reading \<and> cb_readingTimeLeft s > 0
      then s\<lparr>cb_readingTimeLeft := cb_readingTimeLeft s - 1\<rparr>
      else if cb_gamePhase s = reading \<and> cb_readingTimeLeft s = 0
      then s\<lparr>cb_gamePhase := questions\<rparr>
      else s)"

definition cb_questionsTimer :: "cb_state \<Rightarrow> js_error + cb_state \<times> (nat \<times> nat) option" where
  \<comment> \<open>the questions-phase timer effect, with the timeout it sets\<close>
  "cb_questionsTimer s =
     (if cb_gamePhase s = questions \<and> cb_timeLeft s > 0
      then Inr (s\<lparr>cb_timeLeft := cb_timeLeft s - 1\<rparr>, None)
      else if cb_gamePhase s = questions \<and> cb_timeLeft s = 0 then cb_finishGame s s
      else Inr (s, None))"

datatype cb_event =
  ContentLoaded ReadingPassage "Question list" | ReadingTimer | QuestionsTimer | StartQuestions
  | AnswerSelect nat | NextQuestion | Previous

definition cb_question_screen :: "cb_state \<Rightarrow> bool" where
  \<comment> \<open>the question screen is what is rendered outside the reading and finished phases\<close>
  "cb_question_screen s = (cb_gamePhase s \<noteq> reading \<and> cb_gamePhase s \<noteq> finished)"

definition cb_renders :: "cb_state \<Rightarrow> bool" where
  \<comment> \<open>the reading and the finished screens render in every state; the question screen
      reads \<open>questions[currentQuestion].question\<close>\<close>
  "cb_renders s =
     (\<not> cb_question_screen s \<or> cb_currentQuestion s < length (cb_questions s))"

definition cb_enabled :: "cb_event \<Rightarrow> cb_state \<Rightarrow> bool" where
  \<comment> \<open>the start button is on the reading screen; a radio item exists for each option of
      the question shown; Next is disabled without a selection, Previous at question 0\<close>
  "cb_enabled e s =
     (cb_renders s
      \<and> (case e of
            ContentLoaded p formattedQuestions \<Rightarrow> True
          | ReadingTimer \<Rightarrow> True
          | QuestionsTimer \<Rightarrow> True
          | StartQuestions \<Rightarrow> cb_gamePhase s = reading
          | AnswerSelect i \<Rightarrow>
              cb_question_screen s \<and> i < length (options (cb_questions s ! cb_currentQuestion s))
          | NextQuestion \<Rightarrow> cb_question_screen s \<and> cb_selectedAnswer s \<noteq> []
          | Previous \<Rightarrow> cb_question_screen s \<and> cb_currentQuestion s \<noteq> 0))"


definition cb_step :: "cb_event \<Rightarrow> cb_state \<Rightarrow> js_error + cb_state \<times> (nat \<times> nat) option" where
  "cb_step e s =
     (case e of
        ContentLoaded p formattedQuestions \<Rightarrow> Inr (cb_loadContent p formattedQuestions s, None)
      | ReadingTimer \<Rightarrow> Inr (cb_readingTimer s, None)
      | QuestionsTimer \<Rightarrow> cb_questionsTimer s
      | StartQuestions \<Rightarrow> Inr (cb_startQuestions s, None)
      | AnswerSelect i \<Rightarrow> Inr (s\<lparr>cb_selectedAnswer := toString i\<rparr>, None)
      | NextQuestion \<Rightarrow> cb_handleNextQuestion s
      | Previous \<Rightarrow> Inr (cb_previous s, None))"

fun cb_run :: "cb_event list \<Rightarrow> cb_state \<Rightarrow> (cb_state \<times> (nat \<times> nat) list) option" where
  \<comment> \<open>a sequence of events, each enabled when it happens, with the \<open>onGameEnd\<close> calls made\<close>
  "cb_run [] s = Some (s, [])"
| "cb_run (e # es) s =
     (if cb_enabled e s
      then (case cb_step e s of
              Inl err \<Rightarrow> None
            | Inr (s', call) \<Rightarrow>
                (case cb_run es s' of
                   None \<Rightarrow> None
                 | Some (s'', calls) \<Rightarrow> Some (s'', (case call of None \<Rightarrow> [] | Some c \<Rightarrow> [c]) @ calls)))
      else None)"


definition cb_matches :: "Question list \<Rightarrow> answer elem list \<Rightarrow> nat" where
  \<comment> \<open>the positions whose answer is the number stored as the question's correct answer\<close>
  "cb_matches qs as =
     length (filter (\<lambda>(a, q). a = Elem (Number (Num (correctAnswer q)))) (zip as qs))"



definition cb_invariant :: "cb_state \<Rightarrow> bool" where
  \<comment> \<open>one recorded answer, a number or \<open>null\<close>, for each question\<close>
  "cb_invariant s =
     (list_all is_value (cb_answers s) \<and> length (cb_answers s) = length (cb_questions s))"

section \<open>Chat responder (\<open>aiService.ts\<close>)\<close>

subsection \<open>Response data\<close>

text \<open>
  The body of a provider's response is any JSON value. Reading a property of \<open>null\<close>
  raises \<open>TypeError\<close>; a property that is absent is \<open>undefined\<close>, here \<open>None\<close>; \<open>?.\<close>
  gives \<open>undefined\<close> on \<open>null\<close> and \<open>undefined\<close>; calling \<open>trim\<close> on a value that is
  not a string raises \<open>TypeError\<close>. The keys read here are no built-in property of
  strings, arrays or numbers.
\<close>

datatype json =
  JNull | JBool bool | JNumber rat | JString string | JArray "json list"
  | JObject "(string \<times> json) list"

definition truthy :: "json option \<Rightarrow> bool" where
  "truthy v =
     (case v of
        None \<Rightarrow> False
      | Some JNull \<Rightarrow> False
      | Some (JBool b) \<Rightarrow> b
      | Some (JNumber r) \<Rightarrow> r \<noteq> 0
      | Some (JString t) \<Rightarrow> t \<noteq> []
      | Some _ \<Rightarrow> True)"

definition member :: "string \<Rightarrow> json \<Rightarrow> js_error + json option" where
  \<comment> \<open>\<open>v.key\<close>; of two equal keys of an object the later one counts\<close>
  "member key v =
     (case v of
        JNull \<Rightarrow> Inl TypeError
      | JObject kvs \<Rightarrow> Inr (map_of (rev kvs) key)
      | _ \<Rightarrow> Inr None)"

definition element0 :: "json \<Rightarrow> js_error + json option" where
  \<comment> \<open>\<open>v[0]\<close>\<close>
  "element0 v =
     (case v of
        JNull \<Rightarrow> Inl TypeError
      | JArray xs \<Rightarrow> Inr (case xs of [] \<Rightarrow> None | x # _ \<Rightarrow> Some x)
      | JString t \<Rightarrow> Inr (case t of [] \<Rightarrow> None | c # _ \<Rightarrow> Some (JString [c]))
      | JObject kvs \<Rightarrow> Inr (map_of (rev kvs) ''0'')
      | _ \<Rightarrow> Inr None)"

definition opt_member :: "string \<Rightarrow> json option \<Rightarrow> json option" where
  \<comment> \<open>\<open>v?.key\<close>\<close>
  "opt_member key v =
     (case v of
        None \<Rightarrow> None
      | Some x \<Rightarrow> (case member key x of Inl e \<Rightarrow> None | Inr r \<Rightarrow> r))"

definition trim_method :: "json option \<Rightarrow> js_error + string" where
  \<comment> \<open>\<open>v.trim()\<close> for a truthy \<open>v\<close>\<close>
  "trim_method v = (case v of Some (JString t) \<Rightarrow> Inr (trim t) | _ \<Rightarrow> Inl TypeError)"

fun remove_prefix :: "string list \<Rightarrow> string \<Rightarrow> string" where
  \<comment> \<open>\<open>replace(/^(a|b|c)/i, '')\<close>, the alternatives given in lower case\<close>
  "remove_prefix [] t = t"
| "remove_prefix (p # ps) t =
     (if toLowerCase (take (length p) t) = p then drop (length p) t else remove_prefix ps t)"

fun str_includes :: "string \<Rightarrow> string \<Rightarrow> bool" where
  \<comment> \<open>\<open>t.includes(sub)\<close>\<close>
  "str_includes [] sub = (sub = [])"
| "str_includes (c # cs) sub = (prefix sub (c # cs) \<or> str_includes cs sub)"

subsection \<open>Providers\<close>

record AIProvider =
  pv_name :: string
  pv_url :: string
  parseResponse :: "json \<Rightarrow> js_error + string option"

definition parse_HuggingFace :: "json \<Rightarrow> js_error + string option" where
  "parse_HuggingFace data =
     (case data of
        JArray xs \<Rightarrow>
          (let generated_text = opt_member ''generated_text'' (case xs of [] \<Rightarrow> None | x # _ \<Rightarrow> Some x)
           in if truthy generated_text
              then (case trim_method generated_text of
                      Inl e \<Rightarrow> Inl e
                    | Inr t \<Rightarrow>
                        (let response = trim (remove_prefix [''tutor:'', ''student:'', ''ai:''] t)
                         in if length response > 20 then Inr (Some response) else Inr None))
              else Inr None)
      | _ \<Rightarrow> Inr None)"

definition parse_FastGPT :: "json \<Rightarrow> js_error + string option" where
  "parse_FastGPT data =
     (case member ''choices'' data of
        Inl e \<Rightarrow> Inl e
      | Inr choices \<Rightarrow>
          if truthy choices
          then (case element0 (the choices) of
                  Inl e \<Rightarrow> Inl e
                | Inr first \<Rightarrow>
                    (let content = opt_member ''content'' (opt_member ''message'' first)
                     in if truthy content
                        then (case trim_method content of Inl e \<Rightarrow> Inl e | Inr t \<Rightarrow> Inr (Some t))
                        else Inr None))
          else Inr None)"

definition parse_EducationalAI :: "json \<Rightarrow> js_error + string option" where
  "parse_EducationalAI data =
     (case member ''generations'' data of
        Inl e \<Rightarrow> Inl e
      | Inr generations \<Rightarrow>
          if truthy generations
          then (case element0 (the generations) of
                  Inl e \<Rightarrow> Inl e
                | Inr first \<Rightarrow>
                    (let generated = opt_member ''text'' first
                     in if truthy generated
                        then (case trim_method generated of
                                Inl e \<Rightarrow> Inl e
                              | Inr t \<Rightarrow>
                                  (let response = trim (remove_prefix [''response:'', ''ai:'', ''tutor:''] t)
                                   in if length response > 20 then Inr (Some response) else Inr None))
                        else Inr None))
          else Inr None)"

definition providers :: "AIProvider list" where
  "providers =
     [\<lparr>pv_name = ''HuggingFace'',
       pv_url = ''https://api-inference.huggingface.co/models/microsoft/DialoGPT-large'',
       parseResponse = parse_HuggingFace\<rparr>,
      \<lparr>pv_name = ''FastGPT'',
       pv_url = ''https://api.openai-proxy.com/v1/chat/completions'',
       parseResponse = parse_FastGPT\<rparr>,
      \<lparr>pv_name = ''EducationalAI'',
       pv_url = ''https://api.cohere.ai/v1/generate'',
       parseResponse = parse_EducationalAI\<rparr>]"

subsection \<open>One call (\<open>callProvider\<close>)\<close>

text \<open>
  What the network does with a request is an input of the model: the time in
  milliseconds after which \<open>fetch\<close> settles (\<open>None\<close>: never) and how it settles, by
  rejecting or with a response (its \<open>ok\<close> flag, its status and its body, which parses as
  JSON or does not). A fetch that has not settled when the abort timer fires rejects
  with \<open>AbortError\<close>. A body whose headers have arrived is read to its end. The request
  body is an object literal built from the message; building it raises nothing.
\<close>

datatype http_body = BodyJson json | BodyInvalid

datatype settled = Rejected | Responded bool nat http_body

record exchange =
  settles_after :: "nat option"
  settles_with :: settled

datatype effect = SetAbortTimer nat | Fetch string | ClearAbortTimer

definition await_fetch :: "nat \<Rightarrow> exchange \<Rightarrow> js_error + bool \<times> nat \<times> http_body" where
  "await_fetch timer ex =
     (case settles_after ex of
        None \<Rightarrow> Inl AbortError
      | Some t \<Rightarrow>
          if t < timer
          then (case settles_with ex of
                  Rejected \<Rightarrow> Inl NetworkError
                | Responded ok status body \<Rightarrow> Inr (ok, status, body))
          else Inl AbortError)"

definition valid_result :: "string option \<Rightarrow> bool" where
  \<comment> \<open>\<open>result && result.length > 10 && !result.includes('Sorry, I could not generate')\<close>\<close>
  "valid_result result =
     (case result of
        None \<Rightarrow> False
      | Some r \<Rightarrow> r \<noteq> [] \<and> length r > 10 \<and> \<not> str_includes r ''Sorry, I could not generate'')"

definition callProvider_try :: "AIProvider \<Rightarrow> string \<Rightarrow> exchange \<Rightarrow> js_error + string option" where
  \<comment> \<open>the \<open>try\<close> block\<close>
  "callProvider_try provider userMessage ex =
     (case await_fetch 10000 ex of
        Inl e \<Rightarrow> Inl e
      | Inr (ok, status, body) \<Rightarrow>
          if \<not> ok then Inl (HttpError status)
          else (case body of
                  BodyInvalid \<Rightarrow> Inl SyntaxError
                | BodyJson data \<Rightarrow>
                    (case parseResponse provider data of
                       Inl e \<Rightarrow> Inl e
                     | Inr result \<Rightarrow> if valid_result result then Inr result else Inr None)))"

definition callProvider_effects :: "AIProvider \<Rightarrow> exchange \<Rightarrow> effect list" where
  "callProvider_effects provider ex =
     [SetAbortTimer 10000, Fetch (pv_url provider)]
     @ (case await_fetch 10000 ex of Inl e \<Rightarrow> [] | Inr r \<Rightarrow> [ClearAbortTimer])"

definition callProvider ::
  "AIProvider \<Rightarrow> string \<Rightarrow> exchange \<Rightarrow> (js_error + string option) \<times> effect list" where
  \<comment> \<open>the \<open>catch\<close> block logs the error and returns \<open>null\<close>\<close>
  "callProvider provider userMessage ex =
     ((case callProvider_try provider userMessage ex of
         Inl error \<Rightarrow> Inr None
       | Inr result \<Rightarrow> Inr result),
      callProvider_effects provider ex)"

subsection \<open>Local responses\<close>

text \<open>
  The reply texts are long literals. The model names each text instead of spelling it
  out: the text of a local rule (with the topic it interpolates), the text at an index
  of the table of a category (with the message it interpolates), or the text a
  provider returned. \<open>rnd n\<close> is the index \<open>Math.floor(Math.random() * n)\<close> drawn in a
  table of \<open>n\<close> texts.
\<close>

datatype local_rule =
  TwoPlusTwo | SolveEquation | Photosynthesis | Gravity | WorldWar | Essay | StudyTips
  | Algebra | Homework | TopicQuestion string

datatype category =
  MathTexts | ScienceTexts | HistoryTexts | EnglishTexts | StudyTexts | GreetingTexts
  | ExplanationTexts | SpecificTexts

datatype reply = EmptyText | LocalText local_rule | CannedText category nat string | ProviderText string

record AIResponse =
  message :: reply
  suggestions :: "string list"
  relatedTopics :: "string list"

record local_response =
  lr_message :: reply
  isSpecific :: bool

definition isWordOrSpace :: "char \<Rightarrow> bool" where
  \<comment> \<open>the class \<open>[\w\s]\<close>\<close>
  "isWordOrSpace c =
     (isWhiteSpace c
      \<or> c \<in> set ''abcdefghijklmnopqrstuvwxyzABCDEFGHIJKLMNOPQRSTUVWXYZ0123456789_'')"

fun match_pattern :: "string \<Rightarrow> string \<Rightarrow> string option" where
  \<comment> \<open>group 1 of the leftmost match of \<open>/lit([\w\s]+)[\?\.]*/i\<close>, \<open>lit\<close> in lower case\<close>
  "match_pattern lit [] = None"
| "match_pattern lit (c # cs) =
     (if toLowerCase (take (length lit) (c # cs)) = lit
         \<and> (case drop (length lit) (c # cs) of [] \<Rightarrow> False | r # _ \<Rightarrow> isWordOrSpace r)
      then Some (takeWhile isWordOrSpace (drop (length lit) (c # cs)))
      else match_pattern lit cs)"

fun first_topic :: "string list \<Rightarrow> string \<Rightarrow> string option" where
  \<comment> \<open>\<open>for (const pattern of patterns)\<close>: the first pattern that matches decides\<close>
  "first_topic [] m = None"
| "first_topic (lit # lits) m =
     (case match_pattern lit m of
        Some g \<Rightarrow> Some (trim g)
      | None \<Rightarrow> first_topic lits m)"

definition extractTopicFromQuestion :: "string \<Rightarrow> string option" where
  "extractTopicFromQuestion m =
     first_topic [''what is '', ''what are '', ''how do '', ''why does '', ''explain ''] m"

definition getIntelligentResponse :: "string \<Rightarrow> local_response" where
  "getIntelligentResponse userMessage =
     (let m = toLowerCase userMessage;
          specific = (\<lambda>r. \<lparr>lr_message = LocalText r, isSpecific = True\<rparr>)
      in if str_includes m ''2 + 2'' \<or> str_includes m ''2+2'' then specific TwoPlusTwo
         else if str_includes m ''solve'' \<and> (str_includes m ''x'' \<or> str_includes m ''equation'')
         then specific SolveEquation
         else if str_includes m ''photosynthesis'' then specific Photosynthesis
         else if str_includes m ''gravity'' then specific Gravity
         else if str_includes m ''world war''
                 \<and> (str_includes m ''1'' \<or> str_includes m ''2'' \<or> str_includes m ''i'' \<or> str_includes m ''ii'')
         then specific WorldWar
         else if str_includes m ''essay'' \<and> (str_includes m ''write'' \<or> str_includes m ''how'')
         then specific Essay
         else if str_includes m ''study''
                 \<and> (str_includes m ''better'' \<or> str_includes m ''improve'' \<or> str_includes m ''tips'')
         then specific StudyTips
         else if str_includes m ''algebra'' \<and> (str_includes m ''what'' \<or> str_includes m ''explain'')
         then specific Algebra
         else if str_includes m ''homework'' \<or> str_includes m ''assignment'' then specific Homework
         else if (str_includes m ''what is'' \<or> str_includes m ''what are'' \<or> str_includes m ''how do''
                  \<or> str_includes m ''why does'')
                 \<and> (case extractTopicFromQuestion m of None \<Rightarrow> False | Some topic \<Rightarrow> topic \<noteq> [])
         then specific (TopicQuestion (the (extractTopicFromQuestion m)))
         else \<lparr>lr_message = EmptyText, isSpecific = False\<rparr>)"

definition getSimulatedResponse :: "(nat \<Rightarrow> nat) \<Rightarrow> string \<Rightarrow> AIResponse" where
  "getSimulatedResponse rnd userMessage =
     (let m = toLowerCase userMessage
      in if str_includes m ''math'' \<or> str_includes m ''mathematics'' \<or> str_includes m ''algebra''
            \<or> str_includes m ''calculus'' \<or> str_includes m ''geometry'' \<or> str_includes m ''equation''
            \<or> str_includes m ''solve''
         then \<lparr>message = CannedText MathTexts (rnd 3) [],
               suggestions = [''Show me algebra examples'', ''Explain geometry basics'',
                              ''Help with calculus'', ''Practice arithmetic problems''],
               relatedTopics = [''Algebra'', ''Geometry'', ''Calculus'', ''Statistics'']\<rparr>
         else if str_includes m ''science'' \<or> str_includes m ''physics'' \<or> str_includes m ''chemistry''
            \<or> str_includes m ''biology'' \<or> str_includes m ''experiment'' \<or> str_includes m ''theory''
         then \<lparr>message = CannedText ScienceTexts (rnd 3) [],
               suggestions = [''Explain physics concepts'', ''Chemistry basics'',
                              ''Biology fundamentals'', ''Scientific method''],
               relatedTopics = [''Physics'', ''Chemistry'', ''Biology'', ''Earth Science'']\<rparr>
         else if str_includes m ''history'' \<or> str_includes m ''historical'' \<or> str_includes m ''war''
            \<or> str_includes m ''ancient'' \<or> str_includes m ''civilization''
         then \<lparr>message = CannedText HistoryTexts (rnd 3) [],
               suggestions = [''World War II'', ''Ancient civilizations'', ''American history'',
                              ''Modern history''],
               relatedTopics = [''World History'', ''American History'', ''Ancient History'',
                                ''Modern History'']\<rparr>
         else if str_includes m ''english'' \<or> str_includes m ''literature'' \<or> str_includes m ''writing''
            \<or> str_includes m ''essay'' \<or> str_includes m ''grammar'' \<or> str_includes m ''read''
         then \<lparr>message = CannedText EnglishTexts (rnd 3) [],
               suggestions = [''Grammar help'', ''Essay writing tips'', ''Poetry analysis'',
                              ''Reading strategies''],
               relatedTopics = [''Grammar'', ''Creative Writing'', ''Literature Analysis'',
                                ''Poetry'']\<rparr>
         else if str_includes m ''study'' \<or> str_includes m ''learn'' \<or> str_includes m ''tips''
            \<or> str_includes m ''help'' \<or> str_includes m ''how'' \<or> str_includes m ''prepare''
         then \<lparr>message = CannedText StudyTexts (rnd 3) [],
               suggestions = [''Study schedule tips'', ''Memory techniques'',
                              ''Note-taking strategies'', ''Test preparation''],
               relatedTopics = [''Study Techniques'', ''Memory'', ''Time Management'',
                                ''Test Prep'']\<rparr>
         else if str_includes m ''hello'' \<or> str_includes m ''hi'' \<or> str_includes m ''hey''
            \<or> str_includes m ''start'' \<or> length m < 10
         then \<lparr>message = CannedText GreetingTexts (rnd 3) [],
               suggestions = [''Help with math problems'', ''Explain science concepts'',
                              ''Study tips and strategies'', ''Writing and grammar help''],
               relatedTopics = [''Mathematics'', ''Science'', ''History'', ''English'',
                                ''Study Skills'']\<rparr>
         else if str_includes m ''explain'' \<or> str_includes m ''what is'' \<or> str_includes m ''define''
            \<or> str_includes m ''meaning''
         then \<lparr>message = CannedText ExplanationTexts (rnd 3) userMessage,
               suggestions = [''Give me examples'', ''Explain it simply'', ''Show me step by step'',
                              ''Real world applications''],
               relatedTopics = [''Concepts'', ''Examples'', ''Applications'', ''Understanding'']\<rparr>
         else \<lparr>message = CannedText SpecificTexts (rnd 4) userMessage,
               suggestions = [''Explain the basics'', ''Give me examples'',
                              ''Study tips for this topic'', ''Related concepts''],
               relatedTopics = [''Study Skills'', ''Academic Subjects'', ''Learning Strategies'',
                                ''Understanding'']\<rparr>)"

definition generateSuggestions :: "string \<Rightarrow> string list" where
  "generateSuggestions userMessage =
     (let m = toLowerCase userMessage
      in if str_includes m ''math''
         then [''Show me examples'', ''Practice problems'', ''Explain the concept'', ''Related formulas'']
         else if str_includes m ''science''
         then [''Show experiments'', ''Explain theories'', ''Real-world applications'',
               ''Related concepts'']
         else if str_includes m ''history''
         then [''Key dates'', ''Important figures'', ''Cause and effect'', ''Timeline'']
         else [''Tell me more'', ''Give examples'', ''Explain simply'', ''Practice questions''])"

definition generateRelatedTopics :: "string \<Rightarrow> string list" where
  "generateRelatedTopics userMessage =
     (let m = toLowerCase userMessage
      in if str_includes m ''math'' \<or> str_includes m ''algebra''
         then [''Geometry'', ''Calculus'', ''Statistics'', ''Trigonometry'']
         else if str_includes m ''science'' \<or> str_includes m ''physics''
         then [''Chemistry'', ''Biology'', ''Earth Science'', ''Astronomy'']
         else if str_includes m ''history''
         then [''Geography'', ''Political Science'', ''Economics'', ''Sociology'']
         else [''Study Skills'', ''Critical Thinking'', ''Research Methods'', ''Academic Writing''])"

subsection \<open>The fallback chain (\<open>generateResponse\<close>)\<close>

fun provider_loop ::
  "AIProvider list \<Rightarrow> nat \<Rightarrow> (nat \<Rightarrow> exchange) \<Rightarrow> string \<Rightarrow> string option \<times> string list" where
  \<comment> \<open>the \<open>for\<close> loop from position \<open>i\<close> on, over the providers still to try: the response
      it returns with, if any, and the names of the providers it called\<close>
  "provider_loop [] i net userMessage = (None, [])"
| "provider_loop (provider # rest) i net userMessage =
     (case fst (callProvider provider userMessage (net i)) of
        Inl error \<Rightarrow>
          (case provider_loop rest (i + 1) net userMessage of
             (r, called) \<Rightarrow> (r, pv_name provider # called))
      | Inr response \<Rightarrow>
          if response \<noteq> None \<and> response \<noteq> Some []
          then (response, [pv_name provider])
          else (case provider_loop rest (i + 1) net userMessage of
                  (r, called) \<Rightarrow> (r, pv_name provider # called)))"

definition generateResponse ::
  "AIProvider list \<Rightarrow> (nat \<Rightarrow> exchange) \<Rightarrow> (nat \<Rightarrow> nat) \<Rightarrow> string
     \<Rightarrow> (js_error + AIResponse) \<times> string list" where
  "generateResponse this_providers net rnd userMessage =
     (let localResponse = getIntelligentResponse userMessage
      in if isSpecific localResponse
         then (Inr \<lparr>message = lr_message localResponse,
                     suggestions = generateSuggestions userMessage,
                     relatedTopics = generateRelatedTopics userMessage\<rparr>, [])
         else (case provider_loop this_providers 0 net userMessage of
                 (Some response, called) \<Rightarrow>
                   (Inr \<lparr>message = ProviderText response,
                         suggestions = generateSuggestions userMessage,
                         relatedTopics = generateRelatedTopics userMessage\<rparr>, called)
               | (None, called) \<Rightarrow> (Inr (getSimulatedResponse rnd userMessage), called)))"

definition provider_fails :: "AIProvider \<Rightarrow> string \<Rightarrow> exchange \<Rightarrow> bool" where
  \<comment> \<open>the call raises inside, or its response is rejected as invalid\<close>
  "provider_fails provider userMessage ex =
     (case callProvider_try provider userMessage ex of
        Inl error \<Rightarrow> True
      | Inr result \<Rightarrow> result = None)"

subsection \<open>Example content\<close>

definition w_necessary :: SpellingWord where
  "w_necessary = \<lparr>sw_id = ''1'', word = ''necessary'', sw_definition = ''Required to be done'',
     difficulty_level = ''medium'', pronunciation = Some ''NES-uh-ser-ee''\<rparr>"


definition sb_recorded_exact :: "sb_state \<Rightarrow> nat" where
  "sb_recorded_exact s = sb_exact_matches (sb_words s) (sb_answers s)"







definition sb_last_word :: sb_state where
  "sb_last_word = (sb_loadWords [w_necessary] sb_initial)\<lparr>sb_userInput := '' NECESSARY ''\<rparr>"


definition ex_never :: exchange where
  "ex_never = \<lparr>settles_after = None, settles_with = Rejected\<rparr>"

definition ex_late :: exchange where
  "ex_late = \<lparr>settles_after = Some 12000,
     settles_with = Responded True 200
       (BodyJson (JArray [JObject [(''generated_text'', JString ''Tutor: Plants turn light into sugar.'')]]))\<rparr>"

definition ex_in_time :: exchange where
  "ex_in_time = \<lparr>settles_after = Some 800,
     settles_with = Responded True 200
       (BodyJson (JArray [JObject [(''generated_text'', JString ''Tutor: Plants turn light into sugar.'')]]))\<rparr>"

definition ex_unauthorized :: exchange where
  "ex_unauthorized = \<lparr>settles_after = Some 300, settles_with = Responded False 401 BodyInvalid\<rparr>"

definition ex_null_body :: exchange where
  "ex_null_body = \<lparr>settles_after = Some 450, settles_with = Responded True 200 (BodyJson JNull)\<rparr>"

definition net_all_fail :: "nat \<Rightarrow> exchange" where
  "net_all_fail i = (if i = 0 then ex_never else if i = 1 then ex_unauthorized else ex_null_body)"

definition rnd_last :: "nat \<Rightarrow> nat" where
  "rnd_last n = n - 1"

section \<open>Properties of experience and rank\<close>

lemma tdiv_100_nonneg: "0 \<le> e \<Longrightarrow> tdiv e 100 = e div 100"
  by (cases "e = 0") (simp_all add: tdiv_def)

lemma tdiv_100_neg: "e < 0 \<Longrightarrow> tdiv e 100 = - ((- e) div 100)"
  by (simp add: tdiv_def)

lemma tdiv_100_range:
  assumes "int4_range e"
  shows "int4_range (tdiv e 100) \<and> int4_range (tdiv e 100 + 1)"
proof (cases "0 \<le> e")
  case True
  have "0 \<le> e div 100"
    using True by (simp add: pos_imp_zdiv_nonneg_iff)
  moreover have "e div 100 \<le> 21474836"
    using assms zdiv_mono1 [of e 2147483647 100] by (simp add: int4_range_def)
  ultimately show ?thesis
    by (simp add: int4_range_def tdiv_100_nonneg [OF True])
next
  case False
  then have neg: "e < 0" by simp
  have "0 \<le> (- e) div 100"
    using neg by (simp add: pos_imp_zdiv_nonneg_iff)
  moreover have "(- e) div 100 \<le> 21474836"
    using assms zdiv_mono1 [of "- e" 2147483648 100] by (simp add: int4_range_def)
  ultimately show ?thesis
    by (simp add: int4_range_def tdiv_100_neg [OF neg])
qed

lemma max_tdiv_100: "max 1 (tdiv e 100 + 1) = max 1 (e div 100 + 1)"
proof (cases "0 \<le> e")
  case True
  then show ?thesis by (simp add: tdiv_100_nonneg)
next
  case False
  then have neg: "e < 0" by simp
  have "tdiv e 100 \<le> 0" using neg by (simp add: tdiv_100_neg)
  moreover have "e div 100 < 0" using neg by simp
  ultimately show ?thesis by simp
qed

lemma update_user_rank_value:
  assumes "p_exp NEW = Some e" and "int4_range e"
  shows "update_user_rank NEW = Inr (NEW\<lparr>p_rank := Some (max 1 (e div 100 + 1))\<rparr>)"
proof -
  from tdiv_100_range [OF assms(2)]
  have r: "int4_range (tdiv e 100)" "int4_range (tdiv e 100 + 1)" by simp_all
  have "update_user_rank NEW = Inr (NEW\<lparr>p_rank := Some (max 1 (tdiv e 100 + 1))\<rparr>)"
    using assms(1) r by (simp add: update_user_rank_def pg_div_def pg_add_def)
  then show ?thesis by (simp only: max_tdiv_100)
qed

text \<open>
  C4. For experience values in the column's range the trigger stores the rank
  \<open>max 1 (exp div 100 + 1)\<close> (integer division), and a larger experience never gives a
  smaller rank.
\<close>

theorem update_user_rank_monotone:
  assumes "p_exp NEW1 = Some e1" and "p_exp NEW2 = Some e2"
    and "int4_range e1" and "int4_range e2" and "e1 \<le> e2"
  shows "\<exists>r1 r2. map_sum id p_rank (update_user_rank NEW1) = Inr (Some r1)
           \<and> map_sum id p_rank (update_user_rank NEW2) = Inr (Some r2)
           \<and> r1 = max 1 (e1 div 100 + 1) \<and> r2 = max 1 (e2 div 100 + 1) \<and> r1 \<le> r2"
proof -
  have "e1 div 100 \<le> e2 div 100"
    using assms(5) by (simp add: zdiv_mono1)
  then have "max 1 (e1 div 100 + 1) \<le> max 1 (e2 div 100 + 1)" by simp
  then show ?thesis
    by (simp add: update_user_rank_value [OF assms(1,3)] update_user_rank_value [OF assms(2,4)])
qed

theorem update_user_rank_monotone_witness:
  "map_sum id p_rank (update_user_rank \<lparr>p_exp = Some (-250), p_rank = Some 7\<rparr>) = Inr (Some 1)
   \<and> map_sum id p_rank (update_user_rank \<lparr>p_exp = Some 1234, p_rank = None\<rparr>) = Inr (Some 13)"
  using update_user_rank_monotone
    [of "\<lparr>p_exp = Some (-250), p_rank = Some 7\<rparr>" "-250" "\<lparr>p_exp = Some 1234, p_rank = None\<rparr>" 1234]
  by (simp add: int4_range_def)

text \<open>
  C3. For either game mode and a positive total, a score with a smaller or equal
  percentage never earns more experience, whatever monotone rounding the floating-point
  operations apply.
\<close>

theorem calculateExpGained_monotone:
  assumes "mono fl" and "0 < total'"
    and "of_int score1 / of_int total' \<le> (of_int score2 / of_int total' :: real)"
  shows "\<exists>e1 e2. calculateExpGained fl score1 total' gameMode = Some e1
           \<and> calculateExpGained fl score2 total' gameMode = Some e2 \<and> e1 \<le> e2"
proof -
  let ?b = "(if gameMode = comprehension then 10 else 15) :: real"
  let ?p1 = "fl (of_int score1 / of_int total')"
  let ?p2 = "fl (of_int score2 / of_int total')"
  have "?p1 \<le> ?p2"
    using assms(1,3) by (rule monoD)
  then have "15 * ?p1 \<le> 15 * ?p2" by simp
  then have "fl (15 * ?p1) \<le> fl (15 * ?p2)"
    using assms(1) by (simp add: monoD)
  then have "?b + fl (15 * ?p1) \<le> ?b + fl (15 * ?p2)" by simp
  then have "fl (?b + fl (15 * ?p1)) \<le> fl (?b + fl (15 * ?p2))"
    using assms(1) by (simp add: monoD)
  then have "Math_round (fl (?b + fl (15 * ?p1))) \<le> Math_round (fl (?b + fl (15 * ?p2)))"
    unfolding Math_round_def by (intro floor_mono) simp
  then show ?thesis
    using assms(2) by (simp add: calculateExpGained_def Let_def)
qed

theorem calculateExpGained_monotone_witness:
  "calculateExpGained (\<lambda>x. x) 1 6 spellbee = Some 18
   \<and> calculateExpGained (\<lambda>x. x) 5 6 spellbee = Some 28"
proof -
  have m: "mono (\<lambda>x::real. x)" by (simp add: mono_def)
  have t: "(0::int) < 6" by simp
  have q: "of_int 1 / of_int 6 \<le> (of_int 5 / of_int 6 :: real)" by simp
  from calculateExpGained_monotone [OF m t q, of spellbee] show ?thesis
    by (simp add: calculateExpGained_def Math_round_def)
qed

text \<open>
  C9. With \<open>0 \<le> score \<le> total\<close> and \<open>total > 0\<close> the result is an integer between 10 and
  25 for the comprehension mode and between 15 and 30 for the spelling mode. The
  rounding is monotone and leaves the integers up to 30 unchanged, as binary64 does.
\<close>

theorem calculateExpGained_bounds:
  assumes "mono fl" and ints: "\<forall>k\<in>{0..30}. fl (of_int k) = of_int k"
    and "0 \<le> score" and "score \<le> total'" and "0 < total'"
  shows "\<exists>e. calculateExpGained fl score total' gameMode = Some e
           \<and> (if gameMode = comprehension then 10 \<le> e \<and> e \<le> 25 else 15 \<le> e \<and> e \<le> 30)"
proof -
  have f: "fl 0 = 0" "fl 1 = 1" "fl 15 = 15" "fl 10 = 10" "fl 25 = 25" "fl 30 = 30"
    using ints [rule_format, of 0] ints [rule_format, of 1] ints [rule_format, of 15]
      ints [rule_format, of 10] ints [rule_format, of 25] ints [rule_format, of 30] by simp_all
  let ?q = "of_int score / of_int total' :: real"
  have q: "0 \<le> ?q" "?q \<le> 1" using assms(3-5) by simp_all
  have p: "0 \<le> fl ?q" "fl ?q \<le> 1"
    using monoD [OF assms(1) q(1)] monoD [OF assms(1) q(2)] f by simp_all
  then have "0 \<le> 15 * fl ?q" "15 * fl ?q \<le> 15" by simp_all
  then have m: "0 \<le> fl (15 * fl ?q)" "fl (15 * fl ?q) \<le> 15"
    using monoD [OF assms(1), of 0 "15 * fl ?q"] monoD [OF assms(1), of "15 * fl ?q" 15] f
    by simp_all
  show ?thesis
  proof (cases gameMode)
    case comprehension
    have "10 \<le> 10 + fl (15 * fl ?q)" "10 + fl (15 * fl ?q) \<le> 25" using m by simp_all
    then have "10 \<le> fl (10 + fl (15 * fl ?q))" "fl (10 + fl (15 * fl ?q)) \<le> 25"
      using monoD [OF assms(1), of 10 "10 + fl (15 * fl ?q)"]
        monoD [OF assms(1), of "10 + fl (15 * fl ?q)" 25] f by simp_all
    then have "10 \<le> Math_round (fl (10 + fl (15 * fl ?q)))"
      "Math_round (fl (10 + fl (15 * fl ?q))) \<le> 25"
      unfolding Math_round_def by (simp_all add: le_floor_iff floor_le_iff)
    then show ?thesis using comprehension assms(5) by (simp add: calculateExpGained_def)
  next
    case spellbee
    have "15 \<le> 15 + fl (15 * fl ?q)" "15 + fl (15 * fl ?q) \<le> 30" using m by simp_all
    then have "15 \<le> fl (15 + fl (15 * fl ?q))" "fl (15 + fl (15 * fl ?q)) \<le> 30"
      using monoD [OF assms(1), of 15 "15 + fl (15 * fl ?q)"]
        monoD [OF assms(1), of "15 + fl (15 * fl ?q)" 30] f by simp_all
    then have "15 \<le> Math_round (fl (15 + fl (15 * fl ?q)))"
      "Math_round (fl (15 + fl (15 * fl ?q))) \<le> 30"
      unfolding Math_round_def by (simp_all add: le_floor_iff floor_le_iff)
    then show ?thesis using spellbee assms(5) by (simp add: calculateExpGained_def)
  qed
qed

theorem calculateExpGained_bounds_witness:
  "calculateExpGained (\<lambda>x. x) 3 8 comprehension = Some 16
   \<and> calculateExpGained (\<lambda>x. x) 8 8 spellbee = Some 30"
proof -
  have m: "mono (\<lambda>x::real. x)" by (simp add: mono_def)
  have i: "\<forall>k\<in>{0..30}. (\<lambda>x::real. x) (of_int k) = of_int k" by simp
  from calculateExpGained_bounds [OF m i, of 3 8 comprehension]
    calculateExpGained_bounds [OF m i, of 8 8 spellbee]
  show ?thesis
    by (simp add: calculateExpGained_def Math_round_def)
qed

section \<open>Properties of the matchmaking queue\<close>

lemma delete_eq_player_id_queue:
  "matchmaking_queue (delete_eq_player_id (Some uid) uid db)
     = filter (\<lambda>r. player_id r \<noteq> uid) (matchmaking_queue db)"
  by (simp add: delete_eq_player_id_def can_delete_own_queue_entries_def)

lemma entries_of_delete: "entries_of uid (delete_eq_player_id (Some uid) uid db) = []"
  by (simp add: entries_of_def delete_eq_player_id_queue)

lemma entries_of_others_delete:
  "entries_of_others uid (delete_eq_player_id (Some uid) uid db) = entries_of_others uid db"
  by (simp add: entries_of_others_def delete_eq_player_id_queue)

text \<open>
  C5. For an authenticated caller and any queue, \<open>leaveQueue\<close> issues exactly one
  delete, filtered on the caller's id; afterwards the caller has no entry and the
  entries of every other player are the same rows in the same order.
\<close>

theorem leaveQueue_removes_own_entries_only:
  "issued (leaveQueue (Some uid) db state) = [DeleteQueueWherePlayerId uid]
   \<and> entries_of uid (db_after (leaveQueue (Some uid) db state)) = []
   \<and> entries_of_others uid (db_after (leaveQueue (Some uid) db state)) = entries_of_others uid db
   \<and> profiles (db_after (leaveQueue (Some uid) db state)) = profiles db"
  by (simp add: leaveQueue_def entries_of_delete entries_of_others_delete)
    (simp add: delete_eq_player_id_def)

theorem leaveQueue_removes_own_entries_only_witness:
  "matchmaking_queue (db_after (leaveQueue (Some ''u1'')
     \<lparr>profiles = [''u1'', ''u2''],
      matchmaking_queue =
        [\<lparr>q_id = ''a'', player_id = ''u1'', game_mode = spellbee, skill_level = Some 1, created_at = 1\<rparr>,
         \<lparr>q_id = ''b'', player_id = ''u2'', game_mode = spellbee, skill_level = Some 1, created_at = 2\<rparr>,
         \<lparr>q_id = ''c'', player_id = ''u1'', game_mode = comprehension, skill_level = Some 1, created_at = 3\<rparr>]\<rparr>
     \<lparr>isQueued = True, isMatched = False, gameId = None, opponent = None, estimatedWaitTime = 30\<rparr>))
   = [\<lparr>q_id = ''b'', player_id = ''u2'', game_mode = spellbee, skill_level = Some 1, created_at = 2\<rparr>]"
proof -
  let ?db = "\<lparr>profiles = [''u1'', ''u2''],
      matchmaking_queue =
        [\<lparr>q_id = ''a'', player_id = ''u1'', game_mode = spellbee, skill_level = Some 1, created_at = 1\<rparr>,
         \<lparr>q_id = ''b'', player_id = ''u2'', game_mode = spellbee, skill_level = Some 1, created_at = 2\<rparr>,
         \<lparr>q_id = ''c'', player_id = ''u1'', game_mode = comprehension, skill_level = Some 1, created_at = 3\<rparr>]\<rparr>"
  let ?st = "\<lparr>isQueued = True, isMatched = False, gameId = None, opponent = None, estimatedWaitTime = 30\<rparr>"
  have split: "matchmaking_queue (db_after (leaveQueue (Some ''u1'') ?db ?st))
      = filter (\<lambda>r. player_id r = ''u1'' \<or> player_id r \<noteq> ''u1'')
          (matchmaking_queue (db_after (leaveQueue (Some ''u1'') ?db ?st)))"
    by simp
  from leaveQueue_removes_own_entries_only [of "''u1''" ?db ?st]
  have "entries_of ''u1'' (db_after (leaveQueue (Some ''u1'') ?db ?st)) = []"
    and "entries_of_others ''u1'' (db_after (leaveQueue (Some ''u1'') ?db ?st))
           = entries_of_others ''u1'' ?db"
    by simp_all
  then show ?thesis
    by (simp add: entries_of_def entries_of_others_def leaveQueue_def delete_eq_player_id_def
        can_delete_own_queue_entries_def)
qed

text \<open>
  C10. For an authenticated caller, a \<open>joinQueue\<close> that succeeds has issued the delete
  on the caller's id and then one insert, and leaves the caller with exactly one entry,
  the new one, however many entries the caller had before; the entries of the other
  players are unchanged.
\<close>

theorem joinQueue_single_entry:
  assumes "returned (joinQueue (Some uid) gameMode new_id now db state) = Inr state'"
  shows "issued (joinQueue (Some uid) gameMode new_id now db state)
           = [DeleteQueueWherePlayerId uid, InsertQueue uid gameMode 1, SubscribeActiveGames uid]
         \<and> entries_of uid (db_after (joinQueue (Some uid) gameMode new_id now db state))
           = [\<lparr>q_id = new_id, player_id = uid, game_mode = gameMode,
               skill_level = Some 1, created_at = now\<rparr>]
         \<and> entries_of_others uid (db_after (joinQueue (Some uid) gameMode new_id now db state))
           = entries_of_others uid db"
proof -
  let ?db1 = "delete_eq_player_id (Some uid) uid db"
  let ?row = "\<lparr>q_id = new_id, player_id = uid, game_mode = gameMode,
                skill_level = Some 1, created_at = now\<rparr>"
  from assms obtain db2 where ins: "insert_queue_row (Some uid) ?row ?db1 = Inr db2"
    by (auto simp: joinQueue_def Let_def split: sum.splits)
  then have db2: "matchmaking_queue db2 = matchmaking_queue ?db1 @ [?row]"
    by (auto simp: insert_queue_row_def split: if_splits)
  have run: "db_after (joinQueue (Some uid) gameMode new_id now db state) = db2"
    "issued (joinQueue (Some uid) gameMode new_id now db state)
       = [DeleteQueueWherePlayerId uid, InsertQueue uid gameMode 1, SubscribeActiveGames uid]"
    using ins by (simp_all add: joinQueue_def Let_def)
  have own: "entries_of uid db2 = [?row]"
    using entries_of_delete [of uid db] by (simp add: entries_of_def db2)
  have others: "entries_of_others uid db2 = entries_of_others uid db"
    using entries_of_others_delete [of uid db] by (simp add: entries_of_others_def db2)
  show ?thesis
    by (simp only: run own others)
qed

theorem joinQueue_single_entry_witness:
  "length (entries_of ''u1''
     \<lparr>profiles = [''u1'', ''u2''],
      matchmaking_queue =
        [\<lparr>q_id = ''a'', player_id = ''u1'', game_mode = spellbee, skill_level = Some 1, created_at = 1\<rparr>,
         \<lparr>q_id = ''b'', player_id = ''u2'', game_mode = spellbee, skill_level = Some 1, created_at = 2\<rparr>,
         \<lparr>q_id = ''c'', player_id = ''u1'', game_mode = comprehension, skill_level = Some 1, created_at = 3\<rparr>]\<rparr>) = 2
   \<and> entries_of ''u1'' (db_after (joinQueue (Some ''u1'') comprehension ''d'' 4
     \<lparr>profiles = [''u1'', ''u2''],
      matchmaking_queue =
        [\<lparr>q_id = ''a'', player_id = ''u1'', game_mode = spellbee, skill_level = Some 1, created_at = 1\<rparr>,
         \<lparr>q_id = ''b'', player_id = ''u2'', game_mode = spellbee, skill_level = Some 1, created_at = 2\<rparr>,
         \<lparr>q_id = ''c'', player_id = ''u1'', game_mode = comprehension, skill_level = Some 1, created_at = 3\<rparr>]\<rparr>
     \<lparr>isQueued = False, isMatched = False, gameId = None, opponent = None, estimatedWaitTime = 30\<rparr>))
     = [\<lparr>q_id = ''d'', player_id = ''u1'', game_mode = comprehension, skill_level = Some 1, created_at = 4\<rparr>]"
proof -
  let ?db = "\<lparr>profiles = [''u1'', ''u2''],
      matchmaking_queue =
        [\<lparr>q_id = ''a'', player_id = ''u1'', game_mode = spellbee, skill_level = Some 1, created_at = 1\<rparr>,
         \<lparr>q_id = ''b'', player_id = ''u2'', game_mode = spellbee, skill_level = Some 1, created_at = 2\<rparr>,
         \<lparr>q_id = ''c'', player_id = ''u1'', game_mode = comprehension, skill_level = Some 1, created_at = 3\<rparr>]\<rparr>"
  let ?st = "\<lparr>isQueued = False, isMatched = False, gameId = None, opponent = None, estimatedWaitTime = 30\<rparr>"
  have ok: "returned (joinQueue (Some ''u1'') comprehension ''d'' 4 ?db ?st)
              = Inr (?st\<lparr>isQueued := True\<rparr>)"
    by (simp add: joinQueue_def Let_def delete_eq_player_id_def insert_queue_row_def
        can_delete_own_queue_entries_def can_insert_own_queue_entries_def)
  have before: "length (entries_of ''u1'' ?db) = 2"
    by (simp add: entries_of_def)
  from joinQueue_single_entry [OF ok] before show ?thesis by simp
qed

section \<open>Properties of the quiz games\<close>

lemma is_value_Elem [simp]: "is_value (Elem x)" "\<not> is_value Hole" "\<not> is_value Undefined"
  by (simp_all add: is_value_def)

lemma spread_values: "list_all is_value xs \<Longrightarrow> spread xs = xs"
  by (induction xs) (auto simp: spread_def is_value_def split: elem.splits)

lemma list_all_take_drop:
  "list_all P xs \<Longrightarrow> list_all P (take n xs) \<and> list_all P (drop n xs)"
  by (auto simp: list_all_iff dest: in_set_takeD in_set_dropD)

lemma take_put_drop:
  "list_all is_value xs \<Longrightarrow> i < length xs \<Longrightarrow>
   spread (take i xs) @ [Elem v] @ spread (drop (i + 1) xs) = xs[i := Elem v]"
  using list_all_take_drop [of is_value xs]
  by (simp add: spread_values upd_conv_take_nth_drop)

lemma assign_index_values:
  "list_all is_value xs \<Longrightarrow> i < length xs \<Longrightarrow>
   assign_index (spread xs) i v = xs[i := Elem v]"
  by (simp add: assign_index_def spread_values)

lemma list_all_update: "list_all P xs \<Longrightarrow> P v \<Longrightarrow> list_all P (xs[i := v])"
  by (auto simp: list_all_iff dest: set_update_subset_insert [THEN subsetD])

lemma sb_matches_Nil [simp]: "sb_matches [] as = 0" "sb_matches ws [] = 0"
  by (simp_all add: sb_matches_def)

lemma sb_matches_Cons:
  "sb_matches (w # ws) (a # as) =
     (case a of Elem x \<Rightarrow> if toLowerCase x = toLowerCase (word w) then 1 else 0 | _ \<Rightarrow> 0)
     + sb_matches ws as"
  by (simp add: sb_matches_def split: elem.splits)

lemma sb_matches_drop:
  "index < length ws \<Longrightarrow>
   sb_matches (drop index ws) (a # as) =
     (case a of Elem x \<Rightarrow> if toLowerCase x = toLowerCase (word (ws ! index)) then 1 else 0 | _ \<Rightarrow> 0)
     + sb_matches (drop (Suc index) ws) as"
  by (simp add: Cons_nth_drop_Suc [symmetric] sb_matches_Cons)

lemma sb_reduce_matches:
  "sb_reduce ws as index score = Inr r \<Longrightarrow> r = score + sb_matches (drop index ws) as"
proof (induction ws as index score rule: sb_reduce.induct)
  case (1 ws index score)
  then show ?case by simp
next
  case (2 ws rest index score)
  then have r: "r = score + sb_matches (drop (index + 1) ws) rest" by simp
  show ?case
  proof (cases "index < length ws")
    case True
    then show ?thesis using r by (simp add: sb_matches_drop)
  next
    case False
    then show ?thesis using r by simp
  qed
next
  case (3 ws rest index score)
  then show ?case by simp
next
  case (4 ws answer rest index score)
  then show ?case
    by (auto simp: sb_matches_drop split: if_splits)
qed

lemma sb_reduce_total:
  "list_all is_value as \<Longrightarrow> index + length as \<le> length ws \<Longrightarrow>
   \<exists>r. sb_reduce ws as index score = Inr r"
  by (induction ws as index score rule: sb_reduce.induct) auto

lemma sb_reduce_value:
  assumes "list_all is_value as" and "length as \<le> length ws"
  shows "sb_reduce ws as 0 0 = Inr (sb_matches ws as)"
proof -
  from sb_reduce_total [OF assms(1), of 0 ws 0] assms(2)
  obtain r where r: "sb_reduce ws as 0 0 = Inr r" by auto
  from sb_reduce_matches [OF r] r show ?thesis by simp
qed

lemma sb_finishGame_result:
  assumes "sb_finishGame c s = Inr (s', call)"
  shows "call = Some (sb_matches (sb_words c) (sb_finalAnswers c), length (sb_words c))
         \<and> s' = s\<lparr>sb_score := sb_matches (sb_words c) (sb_finalAnswers c), sb_gamePhase := sb_finished\<rparr>"
proof -
  from assms obtain r where r: "sb_reduce (sb_words c) (sb_finalAnswers c) 0 0 = Inr r"
    by (auto simp: sb_finishGame_def split: sum.splits)
  from sb_reduce_matches [OF r] have "r = sb_matches (sb_words c) (sb_finalAnswers c)" by simp
  with assms r show ?thesis by (auto simp: sb_finishGame_def)
qed

lemma sb_input_placed:
  assumes "sb_invariant s" and "sb_renders s" and "sb_gamePhase s = sb_playing"
  shows "sb_userInput s = [] \<or> sb_currentWord s < length (sb_words s)"
  using assms by (auto simp: sb_invariant_def sb_renders_def)

lemma sb_finalAnswers_scored:
  assumes "sb_invariant s" and "sb_userInput s = [] \<or> sb_currentWord s < length (sb_words s)"
  shows "sb_finalAnswers s = sb_scored_answers s"
    and "list_all is_value (sb_scored_answers s)"
    and "length (sb_scored_answers s) = length (sb_words s)"
proof -
  from assms(1) have v: "list_all is_value (sb_answers s)"
    and l: "length (sb_answers s) = length (sb_words s)"
    by (simp_all add: sb_invariant_def)
  show "sb_finalAnswers s = sb_scored_answers s"
  proof (cases "sb_userInput s = []")
    case True
    then show ?thesis by (simp add: sb_finalAnswers_def sb_scored_answers_def)
  next
    case False
    with assms(2) l have "sb_currentWord s < length (sb_answers s)" by simp
    from take_put_drop [OF v this, of "trim (sb_userInput s)"] False
    show ?thesis by (simp add: sb_finalAnswers_def sb_scored_answers_def)
  qed
  show "list_all is_value (sb_scored_answers s)"
    using v by (simp add: sb_scored_answers_def list_all_update)
  show "length (sb_scored_answers s) = length (sb_words s)"
    using l by (simp add: sb_scored_answers_def)
qed

lemma sb_finishGame_scored:
  assumes "sb_invariant c" and "sb_userInput c = [] \<or> sb_currentWord c < length (sb_words c)"
  shows "sb_finishGame c s =
           Inr (s\<lparr>sb_score := sb_matches (sb_words c) (sb_scored_answers c),
                  sb_gamePhase := sb_finished\<rparr>,
                Some (sb_matches (sb_words c) (sb_scored_answers c), length (sb_words c)))"
proof -
  note f = sb_finalAnswers_scored [OF assms]
  have "sb_reduce (sb_words c) (sb_scored_answers c) 0 0
          = Inr (sb_matches (sb_words c) (sb_scored_answers c))"
    using f(2,3) by (intro sb_reduce_value) simp_all
  then show ?thesis by (simp add: sb_finishGame_def f(1))
qed

lemma sb_timer_finish:
  assumes "sb_invariant s" and "sb_renders s" and "sb_gamePhase s = sb_playing"
  shows "\<exists>s' call. sb_timer s = Inr (s', call)
           \<and> (sb_gamePhase s' = sb_finished \<longrightarrow>
                call = Some (sb_matches (sb_words s) (sb_scored_answers s), length (sb_words s))
                \<and> sb_score s' = sb_matches (sb_words s) (sb_scored_answers s))
           \<and> (call \<noteq> None \<longrightarrow> sb_gamePhase s' = sb_finished)"
proof (cases "sb_timeLeft s > 0")
  case True
  with assms(3) show ?thesis by (simp add: sb_timer_def)
next
  case False
  with assms(3) have "sb_timer s = sb_finishGame s s" by (simp add: sb_timer_def)
  with sb_finishGame_scored [OF assms(1) sb_input_placed [OF assms], of s]
  show ?thesis by simp
qed

lemma sb_handleNextWord_finish:
  assumes "sb_invariant s" and "sb_renders s" and "sb_gamePhase s = sb_playing"
  shows "\<exists>s' call. sb_handleNextWord s = Inr (s', call)
           \<and> (sb_gamePhase s' = sb_finished \<longrightarrow>
                call = Some (sb_matches (sb_words s) (sb_scored_answers s), length (sb_words s))
                \<and> sb_score s' = sb_matches (sb_words s) (sb_scored_answers s))
           \<and> (call \<noteq> None \<longrightarrow> sb_gamePhase s' = sb_finished)"
proof (cases "int (sb_currentWord s) < int (length (sb_words s)) - 1")
  case True
  with assms(3) show ?thesis by (simp add: sb_handleNextWord_def Let_def)
next
  case False
  let ?s1 = "s\<lparr>sb_answers := assign_index (spread (sb_answers s)) (sb_currentWord s) (trim (sb_userInput s)),
                sb_userInput := [], sb_showHint := False\<rparr>"
  from False have "sb_handleNextWord s = sb_finishGame s ?s1"
    by (simp add: sb_handleNextWord_def Let_def)
  with sb_finishGame_scored [OF assms(1) sb_input_placed [OF assms], of ?s1]
  show ?thesis by simp
qed

lemma sb_initial_invariant: "sb_invariant sb_initial"
  by (simp add: sb_invariant_def sb_initial_def)

lemma sb_finish_invariant:
  "sb_finishGame c s1 = Inr (s', call) \<Longrightarrow> sb_invariant s1 \<Longrightarrow> sb_invariant s'"
  by (auto simp: sb_invariant_def dest!: sb_finishGame_result)

lemma sb_step_invariant:
  assumes "sb_invariant s" and "sb_enabled e s" and "sb_step e s = Inr (s', call)"
  shows "sb_invariant s'"
proof (cases e)
  case (WordsLoaded ws)
  with assms(3) show ?thesis
    by (auto simp: sb_step_def sb_loadWords_def sb_invariant_def list_all_length)
next
  case SbTimer
  with assms(3) have t: "sb_timer s = Inr (s', call)" by (simp add: sb_step_def)
  show ?thesis
  proof (cases "sb_gamePhase s = sb_playing \<and> sb_timeLeft s = 0")
    case True
    with t have "sb_finishGame s s = Inr (s', call)" by (simp add: sb_timer_def)
    from sb_finish_invariant [OF this assms(1)] show ?thesis .
  next
    case False
    with t have "s' = s\<lparr>sb_timeLeft := sb_timeLeft s - 1\<rparr> \<or> s' = s"
      by (auto simp: sb_timer_def split: if_splits)
    with assms(1) show ?thesis by (auto simp: sb_invariant_def)
  qed
next
  case (InputChange v)
  with assms show ?thesis
    by (auto simp: sb_step_def sb_invariant_def sb_enabled_def sb_playing_screen_def)
next
  case NextWord
  from assms(2) NextWord have scr: "sb_playing_screen s" "sb_renders s"
    by (simp_all add: sb_enabled_def)
  then have cw: "sb_currentWord s < length (sb_answers s)"
    using assms(1) by (auto simp: sb_playing_screen_def sb_renders_def sb_invariant_def)
  let ?s1 = "s\<lparr>sb_answers := assign_index (spread (sb_answers s)) (sb_currentWord s) (trim (sb_userInput s)),
                sb_userInput := [], sb_showHint := False\<rparr>"
  have i1: "sb_invariant ?s1"
    using assms(1) cw
    by (simp add: sb_invariant_def assign_index_values list_all_update)
  show ?thesis
  proof (cases "int (sb_currentWord s) < int (length (sb_words s)) - 1")
    case True
    with assms(3) NextWord have "s' = ?s1\<lparr>sb_currentWord := sb_currentWord s + 1\<rparr>"
      by (simp add: sb_step_def sb_handleNextWord_def Let_def)
    with i1 show ?thesis by (simp add: sb_invariant_def)
  next
    case False
    with assms(3) NextWord have "sb_finishGame s ?s1 = Inr (s', call)"
      by (simp add: sb_step_def sb_handleNextWord_def Let_def)
    from sb_finish_invariant [OF this i1] show ?thesis .
  qed
next
  case SkipWord
  from assms(2) SkipWord have scr: "sb_playing_screen s" "sb_renders s"
    by (simp_all add: sb_enabled_def)
  then have cw: "sb_currentWord s < length (sb_answers s)"
    using assms(1) by (auto simp: sb_playing_screen_def sb_renders_def sb_invariant_def)
  let ?s1 = "s\<lparr>sb_answers := assign_index (spread (sb_answers s)) (sb_currentWord s) [],
                sb_userInput := [], sb_showHint := False\<rparr>"
  have i1: "sb_invariant ?s1"
    using assms(1) cw
    by (simp add: sb_invariant_def assign_index_values list_all_update)
  show ?thesis
  proof (cases "int (sb_currentWord s) < int (length (sb_words s)) - 1")
    case True
    with assms(3) SkipWord have "s' = ?s1\<lparr>sb_currentWord := sb_currentWord s + 1\<rparr>"
      by (simp add: sb_step_def sb_handleSkipWord_def Let_def)
    with i1 show ?thesis by (simp add: sb_invariant_def)
  next
    case False
    with assms(3) SkipWord have "sb_finishGame s ?s1 = Inr (s', call)"
      by (simp add: sb_step_def sb_handleSkipWord_def Let_def)
    from sb_finish_invariant [OF this i1] show ?thesis .
  qed
next
  case ToggleHint
  with assms show ?thesis by (auto simp: sb_step_def sb_invariant_def)
next
  case PronounceWord
  with assms show ?thesis by (auto simp: sb_step_def)
qed

lemma sb_run_invariant:
  "sb_run es s = Some (s', calls) \<Longrightarrow> sb_invariant s \<Longrightarrow> sb_invariant s'"
proof (induction es arbitrary: s calls)
  case Nil
  then show ?case by simp
next
  case (Cons e es)
  from Cons.prems(1) obtain s1 call calls1 where en: "sb_enabled e s"
    and st: "sb_step e s = Inr (s1, call)" and rest: "sb_run es s1 = Some (s', calls1)"
    by (auto split: if_splits sum.splits option.splits)
  from sb_step_invariant [OF Cons.prems(2) en st] have "sb_invariant s1" .
  from Cons.IH [OF rest this] show ?case .
qed

lemma sb_reachable_invariant:
  "sb_run es sb_initial = Some (s, calls) \<Longrightarrow> sb_invariant s"
  using sb_run_invariant [of es sb_initial s calls] sb_initial_invariant by simp

text \<open>
  C1 as stated: the score is the number of recorded answers that are the very string of
  the word. With one word to spell, the player types \<open>Necessary\<close> for \<open>necessary\<close> and
  presses the Finish button, the word load completing once before and once after the
  typing: the game ends with \<open>onGameEnd(1, 1)\<close>, while the recorded answer is not the
  very string of the word.
\<close>

theorem sb_exact_counterexample:
  "map_option snd
     (sb_run [WordsLoaded [w_necessary], InputChange ''Necessary'', WordsLoaded [w_necessary], NextWord]
        sb_initial) = Some [(1, 1)]
   \<and> map_option (sb_recorded_exact \<circ> fst)
     (sb_run [WordsLoaded [w_necessary], InputChange ''Necessary'', WordsLoaded [w_necessary], NextWord]
        sb_initial) = Some 0"
  by code_simp

text \<open>
  C1, amended. In a state with one recorded string for each word, every event other
  than Skip Word returns; if it finishes the game it calls \<open>onGameEnd\<close>, and it calls
  \<open>onGameEnd\<close> only if it finishes the game. The score passed, which is also the score
  stored, is the number of words that the scored answer equals after lower-casing
  both; the scored answers are the recorded ones with the text of the input box, when
  there is some, trimmed and put in the place of the current word. The second argument
  is the number of words.
\<close>

theorem sb_finished_score:
  assumes "sb_invariant s" and "sb_enabled e s" and "e \<noteq> SkipWord"
    and "sb_gamePhase s = sb_playing"
  shows "\<exists>s' call. sb_step e s = Inr (s', call)
           \<and> (sb_gamePhase s' = sb_finished \<longrightarrow>
                call = Some (sb_matches (sb_words s) (sb_scored_answers s), length (sb_words s))
                \<and> sb_score s' = sb_matches (sb_words s) (sb_scored_answers s))
           \<and> (call \<noteq> None \<longrightarrow> sb_gamePhase s' = sb_finished)"
proof -
  from assms(2) have r: "sb_renders s" by (simp add: sb_enabled_def)
  show ?thesis
  proof (cases e)
    case (WordsLoaded ws)
    with assms(4) show ?thesis by (simp add: sb_step_def sb_loadWords_def)
  next
    case SbTimer
    with sb_timer_finish [OF assms(1) r assms(4)] show ?thesis by (simp add: sb_step_def)
  next
    case (InputChange v)
    with assms(4) show ?thesis by (simp add: sb_step_def)
  next
    case NextWord
    with sb_handleNextWord_finish [OF assms(1) r assms(4)] show ?thesis by (simp add: sb_step_def)
  next
    case SkipWord
    with assms(3) show ?thesis by simp
  next
    case ToggleHint
    with assms(4) show ?thesis by (simp add: sb_step_def)
  next
    case PronounceWord
    with assms(4) show ?thesis by (simp add: sb_step_def)
  qed
qed

theorem sb_finished_score_witness:
  "sb_step NextWord sb_last_word
     = Inr (sb_last_word\<lparr>sb_answers := [Elem ''NECESSARY''], sb_userInput := [],
              sb_score := 1, sb_gamePhase := sb_finished\<rparr>, Some (1, 1))
   \<and> sb_matches (sb_words sb_last_word) (sb_scored_answers sb_last_word) = 1"
proof -
  have inv: "sb_invariant sb_last_word" by code_simp
  have en: "sb_enabled NextWord sb_last_word" by code_simp
  have ph: "sb_gamePhase sb_last_word = sb_playing" by code_simp
  have step: "sb_step NextWord sb_last_word
     = Inr (sb_last_word\<lparr>sb_answers := [Elem ''NECESSARY''], sb_userInput := [],
              sb_score := 1, sb_gamePhase := sb_finished\<rparr>, Some (1, 1))"
    by code_simp
  have n: "length (sb_words sb_last_word) = 1" by code_simp
  from sb_finished_score [OF inv en _ ph] step n show ?thesis by auto
qed

lemma cb_matches_Nil [simp]: "cb_matches [] as = 0" "cb_matches qs [] = 0"
  by (simp_all add: cb_matches_def)

lemma cb_matches_drop:
  "index < length qs \<Longrightarrow>
   cb_matches (drop index qs) (a # as) =
     (if strict_equals a (correctAnswer (qs ! index)) then 1 else 0)
     + cb_matches (drop (Suc index) qs) as"
  by (simp add: Cons_nth_drop_Suc [symmetric] cb_matches_def strict_equals_def)

lemma cb_matches_drop_Hole:
  "cb_matches (drop index qs) (Hole # as) = cb_matches (drop (Suc index) qs) as"
proof (cases "index < length qs")
  case True
  then show ?thesis by (simp add: cb_matches_drop strict_equals_def)
next
  case False
  then show ?thesis by simp
qed

lemma cb_reduce_matches:
  "cb_reduce qs as index score = Inr r \<Longrightarrow> r = score + cb_matches (drop index qs) as"
proof (induction as arbitrary: index score)
  case Nil
  then show ?case by simp
next
  case (Cons a rest)
  show ?case
  proof (cases "a = Hole")
    case True
    with Cons.prems have "cb_reduce qs rest (index + 1) score = Inr r" by simp
    from Cons.IH [OF this] True show ?thesis by (simp add: cb_matches_drop_Hole)
  next
    case False
    with Cons.prems have in_range: "index < length qs"
      by (cases a) (simp_all split: if_splits)
    with False Cons.prems
    have "cb_reduce qs rest (index + 1)
            (if strict_equals a (correctAnswer (qs ! index)) then score + 1 else score) = Inr r"
      by (cases a) simp_all
    from Cons.IH [OF this] in_range show ?thesis by (auto simp: cb_matches_drop)
  qed
qed



lemma cb_finishGame_result:
  assumes "cb_finishGame c s = Inr (s', call)"
  shows "call = Some (cb_matches (cb_questions c) (cb_finalAnswers c), length (cb_questions c))
         \<and> s' = s\<lparr>cb_score := cb_matches (cb_questions c) (cb_finalAnswers c), cb_gamePhase := finished\<rparr>"
proof -
  from assms obtain r where r: "cb_reduce (cb_questions c) (cb_finalAnswers c) 0 0 = Inr r"
    by (auto simp: cb_finishGame_def split: sum.splits)
  from cb_reduce_matches [OF r] have "r = cb_matches (cb_questions c) (cb_finalAnswers c)" by simp
  with assms r show ?thesis by (auto simp: cb_finishGame_def)
qed





lemma cb_initial_does_not_render: "\<not> cb_renders cb_initial \<and> \<not> cb_enabled e cb_initial"
  by (simp add: cb_renders_def cb_enabled_def cb_question_screen_def cb_initial_def)

lemma sb_empty_load_does_not_render: "\<not> sb_renders (sb_loadWords [] sb_initial)"
  by (simp add: sb_renders_def sb_loadWords_def sb_initial_def)

lemma cb_initial_invariant: "cb_invariant cb_initial"
  by (simp add: cb_invariant_def cb_initial_def)

lemma cb_finish_invariant:
  "cb_finishGame c s1 = Inr (s', call) \<Longrightarrow> cb_invariant s1 \<Longrightarrow> cb_invariant s'"
  by (auto simp: cb_invariant_def dest!: cb_finishGame_result)

lemma cb_step_invariant:
  assumes "cb_invariant s" and "cb_enabled e s" and "cb_step e s = Inr (s', call)"
  shows "cb_invariant s'"
proof (cases e)
  case (ContentLoaded p qs)
  with assms(3) show ?thesis
    by (auto simp: cb_step_def cb_loadContent_def cb_invariant_def list_all_length)
next
  case ReadingTimer
  with assms(1,3) show ?thesis by (auto simp: cb_step_def cb_readingTimer_def cb_invariant_def)
next
  case QuestionsTimer
  with assms(3) have t: "cb_questionsTimer s = Inr (s', call)" by (simp add: cb_step_def)
  show ?thesis
  proof (cases "cb_gamePhase s = questions \<and> cb_timeLeft s = 0")
    case True
    with t have "cb_finishGame s s = Inr (s', call)" by (simp add: cb_questionsTimer_def)
    from cb_finish_invariant [OF this assms(1)] show ?thesis .
  next
    case False
    with t have "s' = s\<lparr>cb_timeLeft := cb_timeLeft s - 1\<rparr> \<or> s' = s"
      by (auto simp: cb_questionsTimer_def split: if_splits)
    with assms(1) show ?thesis by (auto simp: cb_invariant_def)
  qed
next
  case StartQuestions
  with assms(1,3) show ?thesis by (auto simp: cb_step_def cb_startQuestions_def cb_invariant_def)
next
  case (AnswerSelect i)
  with assms(1,3) show ?thesis by (auto simp: cb_step_def cb_invariant_def)
next
  case NextQuestion
  with assms(2) have "cb_currentQuestion s < length (cb_questions s)"
    by (simp add: cb_enabled_def cb_renders_def)
  with assms(1) have cq: "cb_currentQuestion s < length (cb_answers s)"
    by (simp add: cb_invariant_def)
  let ?s1 = "s\<lparr>cb_answers := assign_index (spread (cb_answers s)) (cb_currentQuestion s)
                                (Number (parseInt (cb_selectedAnswer s))),
                cb_selectedAnswer := []\<rparr>"
  have i1: "cb_invariant ?s1"
    using assms(1) cq by (simp add: cb_invariant_def assign_index_values list_all_update)
  show ?thesis
  proof (cases "int (cb_currentQuestion s) < int (length (cb_questions s)) - 1")
    case True
    with assms(3) NextQuestion have "s' = ?s1\<lparr>cb_currentQuestion := cb_currentQuestion s + 1\<rparr>"
      by (simp add: cb_step_def cb_handleNextQuestion_def Let_def)
    with i1 show ?thesis by (simp add: cb_invariant_def)
  next
    case False
    with assms(3) NextQuestion have "cb_finishGame s ?s1 = Inr (s', call)"
      by (simp add: cb_step_def cb_handleNextQuestion_def Let_def)
    from cb_finish_invariant [OF this i1] show ?thesis .
  qed
next
  case Previous
  with assms(1,3) show ?thesis by (auto simp: cb_step_def cb_previous_def cb_invariant_def)
qed

lemma cb_run_invariant:
  "cb_run es s = Some (s', calls) \<Longrightarrow> cb_invariant s \<Longrightarrow> cb_invariant s'"
proof (induction es arbitrary: s calls)
  case Nil
  then show ?case by simp
next
  case (Cons e es)
  from Cons.prems(1) obtain s1 call calls1 where en: "cb_enabled e s"
    and st: "cb_step e s = Inr (s1, call)" and rest: "cb_run es s1 = Some (s', calls1)"
    by (auto split: if_splits sum.splits option.splits)
  from cb_step_invariant [OF Cons.prems(2) en st] have "cb_invariant s1" .
  from Cons.IH [OF rest this] show ?case .
qed



















section \<open>Properties of the chat responder\<close>

lemma callProvider_never_raises: "\<exists>r. fst (callProvider provider userMessage ex) = Inr r"
  by (simp add: callProvider_def split: sum.splits)

lemma callProvider_eq:
  "fst (callProvider provider userMessage ex) =
     Inr (case callProvider_try provider userMessage ex of Inl error \<Rightarrow> None | Inr result \<Rightarrow> result)"
  by (simp add: callProvider_def split: sum.splits)

lemma await_fetch_timeout:
  "settles_after ex = None \<or> (\<exists>t. settles_after ex = Some t \<and> 10000 \<le> t) \<Longrightarrow>
   await_fetch 10000 ex = Inl AbortError"
  by (auto simp: await_fetch_def)

lemma await_fetch_rejected:
  "settles_with ex = Rejected \<Longrightarrow> \<exists>e. await_fetch 10000 ex = Inl e"
  by (simp add: await_fetch_def split: option.splits)

lemma await_fetch_not_ok:
  "settles_with ex = Responded False status body \<Longrightarrow>
   (\<exists>e. await_fetch 10000 ex = Inl e) \<or> await_fetch 10000 ex = Inr (False, status, body)"
  by (simp add: await_fetch_def split: option.splits)

lemma callProvider_fetch_error:
  "await_fetch 10000 ex = Inl e \<Longrightarrow> callProvider provider userMessage ex
     = (Inr None, [SetAbortTimer 10000, Fetch (pv_url provider)])"
  by (simp add: callProvider_def callProvider_try_def callProvider_effects_def)

lemma callProvider_http_error:
  "await_fetch 10000 ex = Inr (False, status, body) \<Longrightarrow> fst (callProvider provider userMessage ex) = Inr None"
  by (simp add: callProvider_def callProvider_try_def)

lemma callProvider_try_Some_nonempty:
  "callProvider_try provider userMessage ex = Inr (Some r) \<Longrightarrow> r \<noteq> []"
  by (auto simp: callProvider_try_def valid_result_def split: sum.splits if_splits http_body.splits prod.splits)

lemma provider_fails_call:
  "provider_fails provider userMessage ex \<Longrightarrow> fst (callProvider provider userMessage ex) = Inr None"
  by (auto simp: provider_fails_def callProvider_eq split: sum.splits)

lemma provider_succeeds_call:
  "callProvider_try provider userMessage ex = Inr (Some r) \<Longrightarrow>
   fst (callProvider provider userMessage ex) = Inr (Some r)"
  by (simp add: callProvider_eq)

lemma provider_loop_all_fail:
  "(\<forall>k<length ps. provider_fails (ps ! k) userMessage (net (i + k))) \<Longrightarrow>
   provider_loop ps i net userMessage = (None, map pv_name ps)"
proof (induction ps arbitrary: i)
  case Nil
  then show ?case by simp
next
  case (Cons p ps)
  from Cons.prems have "provider_fails p userMessage (net i)" by force
  then have here: "fst (callProvider p userMessage (net i)) = Inr None" by (rule provider_fails_call)
  have "\<forall>k<length ps. provider_fails (ps ! k) userMessage (net (Suc i + k))"
  proof (intro allI impI)
    fix k assume "k < length ps"
    with Cons.prems have "provider_fails ((p # ps) ! Suc k) userMessage (net (i + Suc k))" by force
    then show "provider_fails (ps ! k) userMessage (net (Suc i + k))" by simp
  qed
  from Cons.IH [OF this] have "provider_loop ps (Suc i) net userMessage = (None, map pv_name ps)" .
  with here show ?case by simp
qed

lemma provider_loop_first_success:
  "k < length ps \<Longrightarrow> (\<forall>j<k. provider_fails (ps ! j) userMessage (net (i + j))) \<Longrightarrow>
   callProvider_try (ps ! k) userMessage (net (i + k)) = Inr (Some r) \<Longrightarrow>
   provider_loop ps i net userMessage = (Some r, map pv_name (take (Suc k) ps))"
proof (induction ps arbitrary: i k)
  case Nil
  then show ?case by simp
next
  case (Cons p ps)
  show ?case
  proof (cases k)
    case 0
    with Cons.prems have t: "callProvider_try p userMessage (net i) = Inr (Some r)" by simp
    from callProvider_try_Some_nonempty [OF t] provider_succeeds_call [OF t] 0
    show ?thesis by simp
  next
    case (Suc k')
    with Cons.prems have "provider_fails p userMessage (net i)" by force
    then have here: "fst (callProvider p userMessage (net i)) = Inr None" by (rule provider_fails_call)
    have k': "k' < length ps" using Cons.prems(1) Suc by simp
    have fails: "\<forall>j<k'. provider_fails (ps ! j) userMessage (net (Suc i + j))"
    proof (intro allI impI)
      fix j assume "j < k'"
      with Cons.prems(2) Suc have "provider_fails ((p # ps) ! Suc j) userMessage (net (i + Suc j))"
        by (metis Suc_less_eq)
      then show "provider_fails (ps ! j) userMessage (net (Suc i + j))" by simp
    qed
    have ok: "callProvider_try (ps ! k') userMessage (net (Suc i + k')) = Inr (Some r)"
      using Cons.prems(3) Suc by simp
    from Cons.IH [OF k' fails ok] here Suc show ?thesis by simp
  qed
qed

text \<open>
  C8. Every call of \<open>callProvider\<close> sets the abort timer to 10000 milliseconds and then
  issues its one fetch. The call never raises: when the timer fires first, when the
  fetch is rejected by the network, and when the response is not OK, it returns
  \<open>null\<close>, and the loop of the caller then goes on to the providers after this one.
\<close>

theorem callProvider_guarded:
  "take 2 (snd (callProvider provider userMessage ex)) = [SetAbortTimer 10000, Fetch (pv_url provider)]
   \<and> length (filter (\<lambda>x. \<exists>u. x = Fetch u) (snd (callProvider provider userMessage ex))) = 1
   \<and> (\<exists>r. fst (callProvider provider userMessage ex) = Inr r)
   \<and> (settles_after ex = None \<or> (\<exists>t. settles_after ex = Some t \<and> 10000 \<le> t)
        \<longrightarrow> fst (callProvider provider userMessage ex) = Inr None)
   \<and> (settles_with ex = Rejected \<longrightarrow> fst (callProvider provider userMessage ex) = Inr None)
   \<and> (settles_with ex = Responded False status body
        \<longrightarrow> fst (callProvider provider userMessage ex) = Inr None)
   \<and> (fst (callProvider provider userMessage (net i)) = Inr None
        \<longrightarrow> provider_loop (provider # rest) i net userMessage
            = (fst (provider_loop rest (i + 1) net userMessage),
               pv_name provider # snd (provider_loop rest (i + 1) net userMessage)))"
proof (intro conjI impI)
  show "take 2 (snd (callProvider provider userMessage ex)) = [SetAbortTimer 10000, Fetch (pv_url provider)]"
    by (simp add: callProvider_def callProvider_effects_def)
  show "length (filter (\<lambda>x. \<exists>u. x = Fetch u) (snd (callProvider provider userMessage ex))) = 1"
    by (simp add: callProvider_def callProvider_effects_def split: sum.splits)
  show "\<exists>r. fst (callProvider provider userMessage ex) = Inr r"
    by (rule callProvider_never_raises)
next
  assume "settles_after ex = None \<or> (\<exists>t. settles_after ex = Some t \<and> 10000 \<le> t)"
  from await_fetch_timeout [OF this] show "fst (callProvider provider userMessage ex) = Inr None"
    by (simp add: callProvider_fetch_error)
next
  assume "settles_with ex = Rejected"
  from await_fetch_rejected [OF this] show "fst (callProvider provider userMessage ex) = Inr None"
    by (auto simp: callProvider_fetch_error)
next
  assume "settles_with ex = Responded False status body"
  from await_fetch_not_ok [OF this] show "fst (callProvider provider userMessage ex) = Inr None"
    by (auto simp: callProvider_fetch_error callProvider_http_error)
next
  assume "fst (callProvider provider userMessage (net i)) = Inr None"
  then show "provider_loop (provider # rest) i net userMessage
      = (fst (provider_loop rest (i + 1) net userMessage),
         pv_name provider # snd (provider_loop rest (i + 1) net userMessage))"
    by (simp split: prod.splits)
qed

theorem callProvider_guarded_witness:
  "callProvider (providers ! 0) ''why is the sky blue'' ex_late
     = (Inr None, [SetAbortTimer 10000, Fetch ''https://api-inference.huggingface.co/models/microsoft/DialoGPT-large''])
   \<and> fst (callProvider (providers ! 1) ''why is the sky blue'' ex_unauthorized) = Inr None
   \<and> callProvider (providers ! 0) ''why is the sky blue'' ex_in_time
     = (Inr (Some ''Plants turn light into sugar.''),
        [SetAbortTimer 10000, Fetch ''https://api-inference.huggingface.co/models/microsoft/DialoGPT-large'',
         ClearAbortTimer])"
proof -
  have late: "settles_after ex_late = None \<or> (\<exists>t. settles_after ex_late = Some t \<and> 10000 \<le> t)"
    by (simp add: ex_late_def)
  have unauthorized: "settles_with ex_unauthorized = Responded False 401 BodyInvalid"
    by (simp add: ex_unauthorized_def)
  have effects: "snd (callProvider (providers ! 0) ''why is the sky blue'' ex_late)
      = [SetAbortTimer 10000, Fetch ''https://api-inference.huggingface.co/models/microsoft/DialoGPT-large'']"
    by code_simp
  have in_time: "callProvider (providers ! 0) ''why is the sky blue'' ex_in_time
     = (Inr (Some ''Plants turn light into sugar.''),
        [SetAbortTimer 10000, Fetch ''https://api-inference.huggingface.co/models/microsoft/DialoGPT-large'',
         ClearAbortTimer])"
    by code_simp
  from callProvider_guarded [where provider = "providers ! 0" and userMessage = "''why is the sky blue''" and ex = ex_late] late
  have "fst (callProvider (providers ! 0) ''why is the sky blue'' ex_late) = Inr None" by blast
  moreover
  from callProvider_guarded [where provider = "providers ! 1" and userMessage = "''why is the sky blue''"
      and ex = ex_unauthorized and status = 401 and body = BodyInvalid]
    unauthorized
  have "fst (callProvider (providers ! 1) ''why is the sky blue'' ex_unauthorized) = Inr None" by blast
  ultimately show ?thesis using effects in_time by (simp add: prod_eq_iff)
qed

text \<open>
  C7. \<open>generateResponse\<close> never raises. When no local rule applies, the providers are
  called in the order of the list: a provider that fails inside or gives an invalid
  response is passed over without notice, the first valid response is returned, and
  when every provider fails the result is that of \<open>getSimulatedResponse\<close>.
\<close>

theorem generateResponse_fallback:
  "(\<exists>r. fst (generateResponse ps net rnd userMessage) = Inr r)
   \<and> (\<not> isSpecific (getIntelligentResponse userMessage) \<longrightarrow>
        (\<forall>k<length ps. provider_fails (ps ! k) userMessage (net k)) \<longrightarrow>
        generateResponse ps net rnd userMessage
          = (Inr (getSimulatedResponse rnd userMessage), map pv_name ps))
   \<and> (\<not> isSpecific (getIntelligentResponse userMessage) \<longrightarrow> k < length ps \<longrightarrow>
        (\<forall>j<k. provider_fails (ps ! j) userMessage (net j)) \<longrightarrow>
        callProvider_try (ps ! k) userMessage (net k) = Inr (Some r) \<longrightarrow>
        generateResponse ps net rnd userMessage
          = (Inr \<lparr>message = ProviderText r,
                  suggestions = generateSuggestions userMessage,
                  relatedTopics = generateRelatedTopics userMessage\<rparr>,
             map pv_name (take (Suc k) ps)))"
proof (intro conjI impI)
  show "\<exists>r. fst (generateResponse ps net rnd userMessage) = Inr r"
    by (simp add: generateResponse_def Let_def split: prod.splits option.splits)
next
  assume ns: "\<not> isSpecific (getIntelligentResponse userMessage)"
    and "\<forall>k<length ps. provider_fails (ps ! k) userMessage (net k)"
  then have "provider_loop ps 0 net userMessage = (None, map pv_name ps)"
    using provider_loop_all_fail [of ps userMessage net 0] by simp
  with ns show "generateResponse ps net rnd userMessage
      = (Inr (getSimulatedResponse rnd userMessage), map pv_name ps)"
    by (simp add: generateResponse_def Let_def)
next
  assume ns: "\<not> isSpecific (getIntelligentResponse userMessage)"
    and "k < length ps" "\<forall>j<k. provider_fails (ps ! j) userMessage (net j)"
    "callProvider_try (ps ! k) userMessage (net k) = Inr (Some r)"
  then have "provider_loop ps 0 net userMessage = (Some r, map pv_name (take (Suc k) ps))"
    using provider_loop_first_success [of k ps userMessage net 0 r] by simp
  with ns show "generateResponse ps net rnd userMessage
      = (Inr \<lparr>message = ProviderText r,
              suggestions = generateSuggestions userMessage,
              relatedTopics = generateRelatedTopics userMessage\<rparr>,
         map pv_name (take (Suc k) ps))"
    by (simp add: generateResponse_def Let_def)
qed

theorem generateResponse_fallback_witness:
  "generateResponse providers net_all_fail rnd_last ''tell me about volcanoes''
     = (Inr \<lparr>message = CannedText SpecificTexts 3 ''tell me about volcanoes'',
             suggestions = [''Explain the basics'', ''Give me examples'',
                            ''Study tips for this topic'', ''Related concepts''],
             relatedTopics = [''Study Skills'', ''Academic Subjects'', ''Learning Strategies'',
                              ''Understanding'']\<rparr>,
        [''HuggingFace'', ''FastGPT'', ''EducationalAI''])"
proof -
  have ns: "\<not> isSpecific (getIntelligentResponse ''tell me about volcanoes'')"
    by code_simp
  have f: "provider_fails (providers ! 0) ''tell me about volcanoes'' (net_all_fail 0)"
    "provider_fails (providers ! 1) ''tell me about volcanoes'' (net_all_fail 1)"
    "provider_fails (providers ! 2) ''tell me about volcanoes'' (net_all_fail 2)"
    by code_simp+
  have len: "length providers = 3" by (simp add: providers_def)
  have all: "\<forall>k<length providers. provider_fails (providers ! k) ''tell me about volcanoes'' (net_all_fail k)"
  proof (intro allI impI)
    fix k assume "k < length providers"
    then have "k = 0 \<or> k = 1 \<or> k = 2" unfolding len by arith
    then show "provider_fails (providers ! k) ''tell me about volcanoes'' (net_all_fail k)"
      using f by (elim disjE) simp_all
  qed
  have sim: "getSimulatedResponse rnd_last ''tell me about volcanoes''
     = \<lparr>message = CannedText SpecificTexts 3 ''tell me about volcanoes'',
             suggestions = [''Explain the basics'', ''Give me examples'',
                            ''Study tips for this topic'', ''Related concepts''],
             relatedTopics = [''Study Skills'', ''Academic Subjects'', ''Learning Strategies'',
                              ''Understanding'']\<rparr>"
    by code_simp
  have names: "map pv_name providers = [''HuggingFace'', ''FastGPT'', ''EducationalAI'']"
    by (simp add: providers_def)
  from generateResponse_fallback [of providers net_all_fail rnd_last "''tell me about volcanoes''"] ns all
  have "generateResponse providers net_all_fail rnd_last ''tell me about volcanoes''
          = (Inr (getSimulatedResponse rnd_last ''tell me about volcanoes''), map pv_name providers)"
    by blast
  then show ?thesis by (simp only: sim names)
qed

end
